theory Spec2Isabelle
  imports Main "HOL-Library.Signed_Division" "HOL-Library.Multiset"
begin

section \<open>JavaScript values\<close>

text \<open>
  The script reads a handful of properties of the JSON objects it fetches:
  \<open>id\<close>, \<open>name\<close>, \<open>title\<close>, \<open>body\<close>, \<open>email\<close>, \<open>date\<close>. A property value is
  a JSON scalar, or \<open>undefined\<close> when the object does not carry the property. Numbers
  are integers (the range in which the arithmetic of doubles is exact); fractional
  numbers and nested arrays or objects as property values are outside the model.
\<close>

datatype jsval = JUndefined | JNull | JBool bool | JNum int | JStr string

text \<open>A fetched entity: the properties of one JSON object.\<close>

type_synonym obj = "(string \<times> jsval) list"

definition js_get :: "obj \<Rightarrow> string \<Rightarrow> jsval" where
  "js_get x field = (case map_of x field of None \<Rightarrow> JUndefined | Some v \<Rightarrow> v)"

text \<open>ToBoolean, as applied by \<open>!\<close>, \<open>&&\<close> and \<open>if\<close>.\<close>

fun truthy :: "jsval \<Rightarrow> bool" where
  "truthy JUndefined = False"
| "truthy JNull = False"
| "truthy (JBool b) = b"
| "truthy (JNum n) = (n \<noteq> 0)"
| "truthy (JStr s) = (s \<noteq> [])"

text \<open>\<open>a && b\<close> yields \<open>a\<close> when \<open>a\<close> is falsy and \<open>b\<close> otherwise.\<close>

definition js_and :: "jsval \<Rightarrow> jsval \<Rightarrow> jsval" where
  "js_and a b = (if truthy a then b else a)"

text \<open>Decimal rendering of integers, as in template strings.\<close>

fun show_nat :: "nat \<Rightarrow> string" where
  "show_nat n =
     (if n < 10 then [''0123456789'' ! n]
      else show_nat (n div 10) @ [''0123456789'' ! (n mod 10)])"

declare show_nat.simps [simp del]

definition show_int :: "int \<Rightarrow> string" where
  "show_int i = (if i < 0 then ''-'' @ show_nat (nat (- i)) else show_nat (nat i))"

text \<open>ToString, as applied to the values interpolated into a template string.\<close>

fun to_string :: "jsval \<Rightarrow> string" where
  "to_string JUndefined = ''undefined''"
| "to_string JNull = ''null''"
| "to_string (JBool b) = (if b then ''true'' else ''false'')"
| "to_string (JNum n) = show_int n"
| "to_string (JStr s) = s"

text \<open>\<open>Array.prototype.join\<close> on an array of strings.\<close>

fun join :: "string \<Rightarrow> string list \<Rightarrow> string" where
  "join sep [] = []"
| "join sep [x] = x"
| "join sep (x # y # ys) = x @ sep @ join sep (y # ys)"

section \<open>The environment of a run\<close>

text \<open>An error object; the script reads its \<open>message\<close> only.\<close>

datatype js_error = JsError (message: string)

record flat_record =
  userId :: jsval
  userName :: jsval
  postId :: jsval
  postTitle :: jsval
  commentId :: jsval
  commentBody :: jsval
  commentEmail :: jsval

text \<open>
  What a run does to the outside: log lines (without their time stamp), HTTP GET
  requests, back-off waits (\<open>Sleep d\<close>: a timer that Node sets to \<open>d\<close> milliseconds),
  and the call of the CSV library.
\<close>

datatype level = INFO | WARN | ERROR

datatype event =
    Log level string
  | HttpGet string
  | Sleep nat
  | CsvWrite "flat_record list"

text \<open>
  The decoded body of the answer to \<open>GET /users\<close> need not be an array of objects. It
  is such an array; or \<open>null\<close>; or another value that is not an array, which comes with
  the text a template string prints for its \<open>length\<close> (\<open>undefined\<close> for a number);
  or an array of \<open>n + 1\<close> elements some of which are \<open>null\<close>.
\<close>

datatype shape = ArrayOfObjects | NullBody | NotArray string | ArrayWithNull nat

text \<open>
  The collaborators of the script.
  \<^item> \<open>axios_get w url k\<close> is the outcome of the attempt with retry counter \<open>k\<close> of a
    request for \<open>url\<close>: the decoded body (an array of objects) or the error axios
    throws (network error, timeout, non-2xx status). The outcome may change from
    one attempt to the next, but two requests for the same URL see the same
    outcomes, so the order in which concurrent requests reach the server does not
    matter.
  \<^item> \<open>users_shape w\<close> is the shape of the body that answers \<open>GET /users\<close>; \<open>axios_get\<close>
    holds the body itself when the shape is \<open>ArrayOfObjects\<close>. The bodies of the posts
    and of the comments are arrays of objects throughout.
  \<^item> \<open>csv_write w records\<close> is the outcome of the CSV library's \<open>writeRecords\<close>:
    \<open>None\<close> when the file was written, the error otherwise.
  \<^item> \<open>string_to_number w s\<close> is ToNumber on the string \<open>s\<close>, \<open>None\<close> standing for NaN.
  \<^item> \<open>date_parse w s\<close> is the time value of \<open>new Date(s)\<close> in milliseconds, \<open>None\<close>
    for an invalid date.
  \<^item> \<open>large_number_text w n\<close> is the text a template string prints for an integer
    \<open>n\<close> of \<open>2 ^ 53\<close> or more (the shortest digits that denote the same double).
\<close>

record world =
  axios_get :: "string \<Rightarrow> nat \<Rightarrow> js_error + obj list"
  users_shape :: shape
  csv_write :: "flat_record list \<Rightarrow> js_error option"
  string_to_number :: "string \<Rightarrow> int option"
  date_parse :: "string \<Rightarrow> int option"
  large_number_text :: "nat \<Rightarrow> string"

text \<open>
  The \<open>CONFIG\<close> object; its numeric entries are non-negative integers (values that
  a double holds).
\<close>

record config =
  baseUrl :: string
  maxRetries :: nat
  retryDelay :: nat
  postsPerUser :: nat
  commentsPerPost :: nat
  outputFile :: string

definition CONFIG :: config where
  "CONFIG = \<lparr> baseUrl = ''https://jsonplaceholder.typicode.com'',
              maxRetries = 3, retryDelay = 1000, postsPerUser = 5,
              commentsPerPost = 3, outputFile = ''output.csv'' \<rparr>"

section \<open>Numbers and dates\<close>

text \<open>A number is an integer or NaN (\<open>None\<close>).\<close>

type_synonym number = "int option"

fun to_number :: "world \<Rightarrow> jsval \<Rightarrow> number" where
  "to_number w JUndefined = None"
| "to_number w JNull = Some 0"
| "to_number w (JBool b) = Some (if b then 1 else 0)"
| "to_number w (JNum n) = Some n"
| "to_number w (JStr s) = string_to_number w s"

text \<open>The time value of \<open>new Date(v)\<close>; a number beyond the range of dates is invalid.\<close>

fun new_Date :: "world \<Rightarrow> jsval \<Rightarrow> number" where
  "new_Date w JUndefined = None"
| "new_Date w JNull = Some 0"
| "new_Date w (JBool b) = Some (if b then 1 else 0)"
| "new_Date w (JNum n) = (if \<bar>n\<bar> \<le> 8640000000000000 then Some n else None)"
| "new_Date w (JStr s) = date_parse w s"

fun js_sub :: "number \<Rightarrow> number \<Rightarrow> number" where
  "js_sub (Some a) (Some b) = Some (a - b)"
| "js_sub _ _ = None"

text \<open>\<open>x % 2 === 0\<close>: the remainder takes the sign of the dividend; NaN is not 0.\<close>

definition is_even_id :: "world \<Rightarrow> jsval \<Rightarrow> bool" where
  "is_even_id w v = (case to_number w v of None \<Rightarrow> False | Some n \<Rightarrow> n smod 2 = 0)"

text \<open>
  The delay of a retry is the double \<open>CONFIG.retryDelay * Math.pow(2, retries)\<close>.
  \<open>Math.pow(2, r)\<close> is exact up to \<open>r = 1023\<close> and \<open>Infinity\<close> beyond; the product
  with an integer is exact below \<open>2 ^ 1024\<close> and \<open>Infinity\<close> from there on, and
  \<open>0 * Infinity\<close> is NaN.
\<close>

datatype js_double = Finite nat | Infinity | NaN

definition Math_pow_2 :: "nat \<Rightarrow> js_double" where
  "Math_pow_2 r = (if r < 1024 then Finite (2 ^ r) else Infinity)"

fun js_times :: "nat \<Rightarrow> js_double \<Rightarrow> js_double" where
  "js_times a (Finite b) = (if a * b < 2 ^ 1024 then Finite (a * b) else Infinity)"
| "js_times a Infinity = (if a = 0 then NaN else Infinity)"
| "js_times a NaN = NaN"

text \<open>
  \<open>setTimeout(callback, delay)\<close> in Node: a delay that is not between 1 and
  \<open>2 ^ 31 - 1\<close> is set to 1.
\<close>

fun setTimeout_delay :: "js_double \<Rightarrow> nat" where
  "setTimeout_delay (Finite d) = (if 1 \<le> d \<and> d \<le> 2147483647 then d else 1)"
| "setTimeout_delay Infinity = 1"
| "setTimeout_delay NaN = 1"

text \<open>A non-negative number interpolated into a template string.\<close>

fun Number_toString :: "world \<Rightarrow> js_double \<Rightarrow> string" where
  "Number_toString w (Finite n) =
     (if n < 9007199254740992 then show_nat n else large_number_text w n)"
| "Number_toString w Infinity = ''Infinity''"
| "Number_toString w NaN = ''NaN''"

section \<open>Logger\<close>

definition Logger_info :: "string \<Rightarrow> event list" where
  "Logger_info msg = [Log INFO msg]"

text \<open>The second argument is the \<open>message\<close> of the error passed, if one is passed.\<close>

definition Logger_error :: "string \<Rightarrow> string option \<Rightarrow> event list" where
  "Logger_error msg err =
     (case err of
        None \<Rightarrow> [Log ERROR msg]
      | Some details \<Rightarrow> [Log ERROR msg, Log ERROR (''Details: '' @ details)])"

definition Logger_warn :: "string \<Rightarrow> event list" where
  "Logger_warn msg = [Log WARN msg]"

section \<open>HttpClient\<close>

text \<open>
  The retry counter is a natural number: the source's counter is a double, which
  counts exactly up to \<open>2 ^ 53\<close>.
\<close>

function request :: "config \<Rightarrow> world \<Rightarrow> string \<Rightarrow> nat \<Rightarrow> event list \<times> (js_error + obj list)" where
  "request cfg w url retries =
     (case axios_get w url retries of
        Inr data \<Rightarrow>
          (Logger_info (''Making request to: '' @ url) @ [HttpGet url]
             @ Logger_info (''Request successful: '' @ url),
           Inr data)
      | Inl error \<Rightarrow>
          if retries < maxRetries cfg then
            (let delay = js_times (retryDelay cfg) (Math_pow_2 retries);
                 (tr, res) = request cfg w url (retries + 1)
             in (Logger_info (''Making request to: '' @ url) @ [HttpGet url]
                   @ Logger_warn (''Request failed, retrying in '' @ Number_toString w delay
                        @ ''ms (attempt '' @ Number_toString w (Finite (retries + 1)) @ ''/''
                        @ Number_toString w (Finite (maxRetries cfg)) @ ''): '' @ url)
                   @ [Sleep (setTimeout_delay delay)] @ tr,
                 res))
          else
            (Logger_info (''Making request to: '' @ url) @ [HttpGet url]
               @ Logger_error (''Request failed after ''
                    @ Number_toString w (Finite (maxRetries cfg))
                    @ '' retries: '' @ url) (Some (message error)),
             Inl error))"
  by pat_completeness auto
termination
  by (relation "measure (\<lambda>(cfg, w, url, retries). maxRetries cfg - retries)") auto

declare request.simps [simp del]

section \<open>DataValidator\<close>

text \<open>
  The second argument of \<open>Logger.error\<close> is an object without a \<open>message\<close>, which
  prints as \<open>undefined\<close>.
\<close>

definition validateUser :: "obj \<Rightarrow> event list \<times> bool" where
  "validateUser user =
     (let required = [''id'', ''name''];
          missing = filter (\<lambda>field. \<not> truthy (js_get user field)) required
      in if length missing > 0
         then (Logger_error (''Invalid user data - missing fields: '' @ join '', '' missing)
                 (Some ''undefined''), False)
         else ([], True))"

definition validatePost :: "obj \<Rightarrow> event list \<times> bool" where
  "validatePost post =
     (let required = [''id'', ''title''];
          missing = filter (\<lambda>field. \<not> truthy (js_get post field)) required
      in if length missing > 0
         then (Logger_error (''Invalid post data - missing fields: '' @ join '', '' missing)
                 (Some ''undefined''), False)
         else ([], True))"

definition validateComment :: "obj \<Rightarrow> event list \<times> bool" where
  "validateComment comment =
     (let required = [''id'', ''body'', ''email''];
          missing = filter (\<lambda>field. \<not> truthy (js_get comment field)) required
      in if length missing > 0
         then (Logger_error (''Invalid comment data - missing fields: '' @ join '', '' missing)
                 (Some ''undefined''), False)
         else ([], True))"

section \<open>ApiService\<close>

text \<open>
  What \<open>getUsers\<close> returns: an array of objects, or a value on which
  \<open>users.filter(user => user.id % 2 === 0)\<close> throws the TypeError given (the value is
  not an array and has no \<open>filter\<close> function, or the callback reads \<open>id\<close> of a \<open>null\<close>
  element). On a \<open>null\<close> body \<open>users.length\<close> throws inside \<open>getUsers\<close> itself. The
  texts of the errors are those of V8.
\<close>

datatype body = Items "obj list" | Unfit js_error

definition getUsers :: "config \<Rightarrow> world \<Rightarrow> event list \<times> (js_error + body)" where
  "getUsers cfg w =
     (case request cfg w (baseUrl cfg @ ''/users'') 0 of
        (tr, Inl error) \<Rightarrow> (Logger_info ''Fetching users...'' @ tr, Inl error)
      | (tr, Inr users) \<Rightarrow>
          (case users_shape w of
             ArrayOfObjects \<Rightarrow>
               (Logger_info ''Fetching users...'' @ tr
                  @ Logger_info (''Fetched '' @ show_nat (length users) @ '' users''),
                Inr (Items users))
           | NullBody \<Rightarrow>
               (Logger_info ''Fetching users...'' @ tr,
                Inl (JsError ''Cannot read properties of null (reading 'length')''))
           | NotArray len \<Rightarrow>
               (Logger_info ''Fetching users...'' @ tr
                  @ Logger_info (''Fetched '' @ len @ '' users''),
                Inr (Unfit (JsError ''users.filter is not a function'')))
           | ArrayWithNull n \<Rightarrow>
               (Logger_info ''Fetching users...'' @ tr
                  @ Logger_info (''Fetched '' @ show_nat (Suc n) @ '' users''),
                Inr (Unfit (JsError ''Cannot read properties of null (reading 'id')'')))))"

text \<open>
  The comparison function handed to \<open>sort\<close>, the same for posts and comments:
  \<open>(a, b) => { if (a.date && b.date) return new Date(b.date) - new Date(a.date);
  return b.id - a.id; }\<close>.
\<close>

definition compare_items :: "world \<Rightarrow> obj \<Rightarrow> obj \<Rightarrow> number" where
  "compare_items w a b =
     (if truthy (js_and (js_get a ''date'') (js_get b ''date''))
      then js_sub (new_Date w (js_get b ''date'')) (new_Date w (js_get a ''date''))
      else js_sub (to_number w (js_get b ''id'')) (to_number w (js_get a ''id'')))"

text \<open>
  \<open>Array.prototype.sort\<close> with a comparison function. ECMAScript asks for a stable
  sort: \<open>x\<close> goes behind \<open>y\<close> only when the comparison of \<open>x\<close> with \<open>y\<close> is positive (NaN
  counts as 0). For a consistent comparison function this fixes the result; for
  any other the order is implementation-defined, and the one of a stable insertion
  sort is taken here.
\<close>

fun is_positive :: "number \<Rightarrow> bool" where
  "is_positive None = False"
| "is_positive (Some v) = (0 < v)"

fun sort_insert :: "('a \<Rightarrow> 'a \<Rightarrow> number) \<Rightarrow> 'a \<Rightarrow> 'a list \<Rightarrow> 'a list" where
  "sort_insert comparefn x [] = [x]"
| "sort_insert comparefn x (y # ys) =
     (if is_positive (comparefn x y) then y # sort_insert comparefn x ys else x # y # ys)"

definition Array_sort :: "('a \<Rightarrow> 'a \<Rightarrow> number) \<Rightarrow> 'a list \<Rightarrow> 'a list" where
  "Array_sort comparefn xs = foldr (sort_insert comparefn) xs []"

definition getPostsByUserId ::
  "config \<Rightarrow> world \<Rightarrow> jsval \<Rightarrow> event list \<times> (js_error + obj list)" where
  "getPostsByUserId cfg w uid =
     (case request cfg w (baseUrl cfg @ ''/posts?userId='' @ to_string uid) 0 of
        (tr, Inl error) \<Rightarrow>
          (Logger_info (''Fetching posts for user '' @ to_string uid @ ''...'') @ tr, Inl error)
      | (tr, Inr posts) \<Rightarrow>
          (let sortedPosts = Array_sort (compare_items w) posts
           in (Logger_info (''Fetching posts for user '' @ to_string uid @ ''...'') @ tr,
               Inr (take (postsPerUser cfg) sortedPosts))))"

definition getCommentsByPostId ::
  "config \<Rightarrow> world \<Rightarrow> jsval \<Rightarrow> event list \<times> (js_error + obj list)" where
  "getCommentsByPostId cfg w pid =
     (case request cfg w (baseUrl cfg @ ''/comments?postId='' @ to_string pid) 0 of
        (tr, Inl error) \<Rightarrow>
          (Logger_info (''Fetching comments for post '' @ to_string pid @ ''...'') @ tr, Inl error)
      | (tr, Inr comments) \<Rightarrow>
          (let sortedComments = Array_sort (compare_items w) comments
           in (Logger_info (''Fetching comments for post '' @ to_string pid @ ''...'') @ tr,
               Inr (take (commentsPerPost cfg) sortedComments))))"

section \<open>CsvWriter\<close>

definition writeRecords ::
  "config \<Rightarrow> world \<Rightarrow> flat_record list \<Rightarrow> event list \<times> (js_error + unit)" where
  "writeRecords cfg w records =
     (case csv_write w records of
        None \<Rightarrow>
          ([CsvWrite records]
             @ Logger_info (''Successfully wrote '' @ show_nat (length records)
                  @ '' records to '' @ outputFile cfg),
           Inr ())
      | Some error \<Rightarrow>
          ([CsvWrite records]
             @ Logger_error ''Failed to write CSV file'' (Some (message error)),
           Inl error))"

section \<open>DataProcessor\<close>

text \<open>The object literal pushed to \<open>allRecords\<close>.\<close>

definition flat_record_of :: "obj \<Rightarrow> obj \<Rightarrow> obj \<Rightarrow> flat_record" where
  "flat_record_of user post comment =
     \<lparr> userId = js_get user ''id'', userName = js_get user ''name'',
       postId = js_get post ''id'', postTitle = js_get post ''title'',
       commentId = js_get comment ''id'', commentBody = js_get comment ''body'',
       commentEmail = js_get comment ''email'' \<rparr>"

text \<open>The task started for one post by \<open>posts.map(async (post) => ...)\<close>.\<close>

definition post_task :: "config \<Rightarrow> world \<Rightarrow> obj \<Rightarrow> event list \<times> (obj \<times> obj list)" where
  "post_task cfg w post =
     (case validatePost post of
        (t1, False) \<Rightarrow> (t1, (post, []))
      | (t1, True) \<Rightarrow>
          (case getCommentsByPostId cfg w (js_get post ''id'') of
             (t2, Inr comments) \<Rightarrow> (t1 @ t2, (post, comments))
           | (t2, Inl error) \<Rightarrow>
               (t1 @ t2 @ Logger_error (''Failed to fetch comments for post ''
                                          @ to_string (js_get post ''id''))
                           (Some (message error)),
                (post, []))))"

text \<open>
  \<open>Promise.all\<close> over the tasks: the results come in the order of the tasks. The
  events of the tasks are recorded task by task; how they interleave in time is not
  modelled.
\<close>

fun Promise_all_map :: "('a \<Rightarrow> event list \<times> 'b) \<Rightarrow> 'a list \<Rightarrow> event list \<times> 'b list" where
  "Promise_all_map task [] = ([], [])"
| "Promise_all_map task (x # xs) =
     (case task x of (t1, y) \<Rightarrow>
        (case Promise_all_map task xs of (t2, ys) \<Rightarrow> (t1 @ t2, y # ys)))"

text \<open>\<open>comments.forEach\<close>: every valid comment pushes one record to \<open>allRecords\<close>.\<close>

fun forEach_comment ::
  "obj \<Rightarrow> obj \<Rightarrow> obj list \<Rightarrow> flat_record list \<Rightarrow> event list \<times> flat_record list" where
  "forEach_comment user post [] allRecords = ([], allRecords)"
| "forEach_comment user post (comment # rest) allRecords =
     (case validateComment comment of (t1, valid) \<Rightarrow>
        (case forEach_comment user post rest
                (if valid then allRecords @ [flat_record_of user post comment]
                 else allRecords)
         of (t2, res) \<Rightarrow> (t1 @ t2, res)))"

text \<open>\<open>postsWithComments.forEach\<close>.\<close>

fun forEach_post ::
  "obj \<Rightarrow> (obj \<times> obj list) list \<Rightarrow> flat_record list \<Rightarrow> event list \<times> flat_record list" where
  "forEach_post user [] allRecords = ([], allRecords)"
| "forEach_post user ((post, comments) # rest) allRecords =
     (case forEach_comment user post comments allRecords of (t1, allRecords') \<Rightarrow>
        (case forEach_post user rest allRecords' of (t2, res) \<Rightarrow> (t1 @ t2, res)))"

text \<open>The body of \<open>for (const user of evenUsers)\<close>.\<close>

definition process_user ::
  "config \<Rightarrow> world \<Rightarrow> obj \<Rightarrow> flat_record list \<Rightarrow> event list \<times> flat_record list" where
  "process_user cfg w user allRecords =
     (case validateUser user of
        (t1, False) \<Rightarrow> (t1, allRecords)
      | (t1, True) \<Rightarrow>
          (case getPostsByUserId cfg w (js_get user ''id'') of
             (t2, Inl error) \<Rightarrow>
               (t1 @ t2 @ Logger_error (''Failed to process user ''
                                          @ to_string (js_get user ''id''))
                           (Some (message error)),
                allRecords)
           | (t2, Inr posts) \<Rightarrow>
               (case Promise_all_map (post_task cfg w) posts of (t3, postsWithComments) \<Rightarrow>
                  (case forEach_post user postsWithComments allRecords of (t4, res) \<Rightarrow>
                     (t1 @ t2 @ t3 @ t4, res)))))"

fun for_users ::
  "config \<Rightarrow> world \<Rightarrow> obj list \<Rightarrow> flat_record list \<Rightarrow> event list \<times> flat_record list" where
  "for_users cfg w [] allRecords = ([], allRecords)"
| "for_users cfg w (user # rest) allRecords =
     (case process_user cfg w user allRecords of (t1, allRecords') \<Rightarrow>
        (case for_users cfg w rest allRecords' of (t2, res) \<Rightarrow> (t1 @ t2, res)))"

definition process :: "config \<Rightarrow> world \<Rightarrow> event list \<times> (js_error + unit)" where
  "process cfg w =
     (case getUsers cfg w of
        (t1, Inl error) \<Rightarrow>
          (Logger_info ''Starting data processing...'' @ t1
             @ Logger_error ''Data processing failed'' (Some (message error)),
           Inl error)
      | (t1, Inr (Unfit error)) \<Rightarrow>
          (Logger_info ''Starting data processing...'' @ t1
             @ Logger_error ''Data processing failed'' (Some (message error)),
           Inl error)
      | (t1, Inr (Items users)) \<Rightarrow>
          (let evenUsers = filter (\<lambda>user. is_even_id w (js_get user ''id'')) users;
               t2 = Logger_info (''Filtered '' @ show_nat (length evenUsers)
                                   @ '' users with even IDs'')
           in case for_users cfg w evenUsers [] of (t3, allRecords) \<Rightarrow>
                if length allRecords > 0 then
                  (case writeRecords cfg w allRecords of
                     (t4, Inl error) \<Rightarrow>
                       (Logger_info ''Starting data processing...'' @ t1 @ t2 @ t3 @ t4
                          @ Logger_error ''Data processing failed'' (Some (message error)),
                        Inl error)
                   | (t4, Inr _) \<Rightarrow>
                       (Logger_info ''Starting data processing...'' @ t1 @ t2 @ t3 @ t4
                          @ Logger_info (''Processing completed. Total records: ''
                                           @ show_nat (length allRecords)),
                        Inr ()))
                else
                  (Logger_info ''Starting data processing...'' @ t1 @ t2 @ t3
                     @ Logger_warn ''No valid records to write to CSV'',
                   Inr ())))"

section \<open>main\<close>

text \<open>
  A run yields its events and its exit status: 1 from \<open>process.exit(1)\<close>, 0 when
  \<open>main\<close> returns.
\<close>

definition main :: "config \<Rightarrow> world \<Rightarrow> event list \<times> nat" where
  "main cfg w =
     (case process cfg w of
        (tr, Inr _) \<Rightarrow>
          (Logger_info ''Starting application...'' @ tr
             @ Logger_info ''Application completed successfully'', 0)
      | (tr, Inl error) \<Rightarrow>
          (Logger_info ''Starting application...'' @ tr
             @ Logger_error ''Application failed'' (Some (message error)), 1))"

section \<open>Notions of the specification\<close>

text \<open>The values the loose-truthiness rule counts as missing.\<close>

definition falsy_values :: "jsval set" where
  "falsy_values = {JUndefined, JNull, JBool False, JNum 0, JStr ''''}"

text \<open>The requests and waits of a trace, and the two kinds apart.\<close>

fun is_network :: "event \<Rightarrow> bool" where
  "is_network (HttpGet _) = True"
| "is_network (Sleep _) = True"
| "is_network _ = False"

definition network_events :: "event list \<Rightarrow> event list" where
  "network_events tr = filter is_network tr"

fun attempts :: "event list \<Rightarrow> string list" where
  "attempts [] = []"
| "attempts (HttpGet url # tr) = url # attempts tr"
| "attempts (_ # tr) = attempts tr"

fun waits :: "event list \<Rightarrow> nat list" where
  "waits [] = []"
| "waits (Sleep d # tr) = d # waits tr"
| "waits (_ # tr) = waits tr"

text \<open>The record lists handed to the CSV library in a trace.\<close>

fun csv_writes :: "event list \<Rightarrow> flat_record list list" where
  "csv_writes [] = []"
| "csv_writes (CsvWrite rs # tr) = rs # csv_writes tr"
| "csv_writes (_ # tr) = csv_writes tr"

text \<open>
  Exponential back-off against an endpoint that never answers: \<open>n + 1\<close> attempts,
  the wait after attempt \<open>i\<close> being \<open>d * 2 ^ i\<close>.
\<close>

definition backoff_schedule :: "string \<Rightarrow> nat \<Rightarrow> nat \<Rightarrow> event list" where
  "backoff_schedule url d n =
     concat (map (\<lambda>i. [HttpGet url, Sleep (d * 2 ^ i)]) [0..<n]) @ [HttpGet url]"

text \<open>
  A configuration with one retry after \<open>2 ^ 31\<close> ms, and a server that is down for
  good: every attempt for every URL fails.
\<close>

definition long_delay_config :: config where
  "long_delay_config = CONFIG \<lparr> maxRetries := 1, retryDelay := 2147483648 \<rparr>"

definition world_down :: world where
  "world_down = \<lparr> axios_get = (\<lambda>url k. Inl (JsError ''ECONNREFUSED'')),
                   users_shape = ArrayOfObjects,
                   csv_write = (\<lambda>rs. None),
                   string_to_number = (\<lambda>s. None),
                   date_parse = (\<lambda>s. None),
                   large_number_text = show_nat \<rparr>"

text \<open>
  The rows the specification expects, written without loops: the posts and the
  comments a fetch returned (none when it failed), the rows of a post, of a user and
  of a whole user list.
\<close>

definition fetched_posts :: "config \<Rightarrow> world \<Rightarrow> obj \<Rightarrow> obj list" where
  "fetched_posts cfg w user =
     (case snd (getPostsByUserId cfg w (js_get user ''id'')) of
        Inr posts \<Rightarrow> posts | Inl _ \<Rightarrow> [])"

definition fetched_comments :: "config \<Rightarrow> world \<Rightarrow> obj \<Rightarrow> obj list" where
  "fetched_comments cfg w post =
     (case snd (getCommentsByPostId cfg w (js_get post ''id'')) of
        Inr comments \<Rightarrow> comments | Inl _ \<Rightarrow> [])"

definition post_rows :: "config \<Rightarrow> world \<Rightarrow> obj \<Rightarrow> obj \<Rightarrow> flat_record list" where
  "post_rows cfg w user post =
     (if snd (validatePost post)
      then map (flat_record_of user post)
             (filter (\<lambda>comment. snd (validateComment comment)) (fetched_comments cfg w post))
      else [])"

definition user_rows :: "config \<Rightarrow> world \<Rightarrow> obj \<Rightarrow> flat_record list" where
  "user_rows cfg w user =
     (if snd (validateUser user)
      then concat (map (post_rows cfg w user) (fetched_posts cfg w user))
      else [])"

definition surviving_users :: "world \<Rightarrow> obj list \<Rightarrow> obj list" where
  "surviving_users w users =
     filter (\<lambda>user. is_even_id w (js_get user ''id'') \<and> snd (validateUser user)) users"

definition run_rows :: "config \<Rightarrow> world \<Rightarrow> obj list \<Rightarrow> flat_record list" where
  "run_rows cfg w users = concat (map (user_rows cfg w) (surviving_users w users))"

text \<open>
  A small server used to exercise the theorems. Users 2, 3, 4 and 6 exist; user 2 has
  posts 10, 11 (without a title) and 12, user 6 has post 60 and user 3 has post 30;
  post 10 has comments 100, 101 (without an email) and 102; the comments of post 12
  and the posts of user 4 cannot be fetched; posts 20, 21 and 22, of user 8, carry a
  date only in part. Every other URL fails too.
\<close>

definition demo_users :: "obj list" where
  "demo_users =
     [[(''id'', JNum 2), (''name'', JStr ''Ann'')],
      [(''id'', JNum 3), (''name'', JStr ''Bob'')],
      [(''id'', JNum 4), (''name'', JStr ''Cy'')],
      [(''id'', JNum 6), (''name'', JStr ''Dee'')]]"

definition demo_server :: "string \<Rightarrow> nat \<Rightarrow> js_error + obj list" where
  "demo_server url k =
     (if url = ''https://jsonplaceholder.typicode.com/users'' then
        Inr demo_users
      else if url = ''https://jsonplaceholder.typicode.com/posts?userId=2'' then
        Inr [[(''id'', JNum 10), (''title'', JStr ''Hello'')],
             [(''id'', JNum 11), (''title'', JStr '''')],
             [(''id'', JNum 12), (''title'', JStr ''Bye'')]]
      else if url = ''https://jsonplaceholder.typicode.com/posts?userId=3'' then
        Inr [[(''id'', JNum 30), (''title'', JStr ''Odd'')]]
      else if url = ''https://jsonplaceholder.typicode.com/posts?userId=6'' then
        Inr [[(''id'', JNum 60), (''title'', JStr ''Six'')]]
      else if url = ''https://jsonplaceholder.typicode.com/posts?userId=8'' then
        Inr [[(''id'', JNum 22), (''title'', JStr ''C'')],
             [(''id'', JNum 21), (''title'', JStr ''B''), (''date'', JNum 1000)],
             [(''id'', JNum 20), (''title'', JStr ''A''), (''date'', JNum 3000)]]
      else if url = ''https://jsonplaceholder.typicode.com/comments?postId=10'' then
        Inr [[(''id'', JNum 100), (''body'', JStr ''x''), (''email'', JStr ''a@b.c'')],
             [(''id'', JNum 101), (''body'', JStr ''y'')],
             [(''id'', JNum 102), (''body'', JStr ''z''), (''email'', JStr ''d@e.f'')]]
      else if url = ''https://jsonplaceholder.typicode.com/comments?postId=30'' then
        Inr [[(''id'', JNum 300), (''body'', JStr ''o''), (''email'', JStr ''o@o.o'')]]
      else if url = ''https://jsonplaceholder.typicode.com/comments?postId=60'' then
        Inr [[(''id'', JNum 600), (''body'', JStr ''s''), (''email'', JStr ''s@s.s'')]]
      else Inl (JsError ''Request failed with status code 500''))"

definition world_demo :: world where
  "world_demo = \<lparr> axios_get = demo_server,
                   users_shape = ArrayOfObjects,
                   csv_write = (\<lambda>rs. None),
                   string_to_number = (\<lambda>s. None),
                   date_parse = (\<lambda>s. None),
                   large_number_text = show_nat \<rparr>"

text \<open>The same server, with an output file that cannot be written.\<close>

definition world_sink_down :: world where
  "world_sink_down = \<lparr> axios_get = demo_server,
                        users_shape = ArrayOfObjects,
                        csv_write = (\<lambda>rs. Some (JsError ''EACCES: permission denied'')),
                        string_to_number = (\<lambda>s. None),
                        date_parse = (\<lambda>s. None),
                        large_number_text = show_nat \<rparr>"


text \<open>The three rows of a run against the demo server.\<close>

definition demo_rows :: "flat_record list" where
  "demo_rows =
     [\<lparr> userId = JNum 2, userName = JStr ''Ann'', postId = JNum 10, postTitle = JStr ''Hello'',
        commentId = JNum 102, commentBody = JStr ''z'', commentEmail = JStr ''d@e.f'' \<rparr>,
      \<lparr> userId = JNum 2, userName = JStr ''Ann'', postId = JNum 10, postTitle = JStr ''Hello'',
        commentId = JNum 100, commentBody = JStr ''x'', commentEmail = JStr ''a@b.c'' \<rparr>,
      \<lparr> userId = JNum 6, userName = JStr ''Dee'', postId = JNum 60, postTitle = JStr ''Six'',
        commentId = JNum 600, commentBody = JStr ''s'', commentEmail = JStr ''s@s.s'' \<rparr>]"

text \<open>The array \<open>allRecords\<close> when the loop of \<open>process\<close> over the even users ends.\<close>

definition allRecords :: "config \<Rightarrow> world \<Rightarrow> obj list \<Rightarrow> flat_record list" where
  "allRecords cfg w users =
     snd (for_users cfg w (filter (\<lambda>user. is_even_id w (js_get user ''id'')) users) [])"

text \<open>
  Sorting in descending order of a key, items with equal keys staying in their
  original order.
\<close>

definition sort_descending :: "('a \<Rightarrow> int) \<Rightarrow> 'a list \<Rightarrow> 'a list" where
  "sort_descending key xs = sort_key (\<lambda>x. - key x) xs"

text \<open>
  The two keys: the time value of the date and the id as a number. An item carries a
  date when its \<open>date\<close> is truthy and denotes a valid time.
\<close>

definition date_key :: "world \<Rightarrow> obj \<Rightarrow> int" where
  "date_key w x = (case new_Date w (js_get x ''date'') of Some t \<Rightarrow> t | None \<Rightarrow> 0)"

definition id_key :: "world \<Rightarrow> obj \<Rightarrow> int" where
  "id_key w x = (case to_number w (js_get x ''id'') of Some n \<Rightarrow> n | None \<Rightarrow> 0)"

definition carries_date :: "world \<Rightarrow> obj \<Rightarrow> bool" where
  "carries_date w x \<longleftrightarrow> truthy (js_get x ''date'') \<and> new_Date w (js_get x ''date'') \<noteq> None"

definition has_numeric_id :: "world \<Rightarrow> obj \<Rightarrow> bool" where
  "has_numeric_id w x \<longleftrightarrow> to_number w (js_get x ''id'') \<noteq> None"

text \<open>A server whose items all carry a date, two of them the same one.\<close>

definition dated_items :: "obj list" where
  "dated_items =
     [[(''id'', JNum 1), (''date'', JStr ''2024-01-02'')],
      [(''id'', JNum 2), (''date'', JStr ''2024-01-03'')],
      [(''id'', JNum 3), (''date'', JStr ''2024-01-01'')],
      [(''id'', JNum 4), (''date'', JStr ''2024-01-03'')]]"

definition world_dated :: world where
  "world_dated = \<lparr> axios_get = (\<lambda>url k. Inr dated_items),
                    users_shape = ArrayOfObjects,
                    csv_write = (\<lambda>rs. None),
                    string_to_number = (\<lambda>s. None),
                    date_parse = (\<lambda>s. if s = ''2024-01-01'' then Some 1704067200000
                                       else if s = ''2024-01-02'' then Some 1704153600000
                                       else if s = ''2024-01-03'' then Some 1704240000000
                                       else None),
                    large_number_text = show_nat \<rparr>"

section \<open>Validation\<close>

lemma truthy_iff: "truthy v \<longleftrightarrow> v \<notin> falsy_values"
  by (cases v) (auto simp: falsy_values_def)

text \<open>
  C6: a validator returns false exactly when one of the required properties of its
  kind (user: id, name; post: id, title; comment: id, body, email) is absent, null,
  false, the number zero or the empty string; these are all the falsy values. A user
  whose id is the number 0 is invalid although it carries an id.
\<close>

theorem validators_false_iff_required_field_falsy:
  "(snd (validateUser x) = False
      \<longleftrightarrow> (\<exists>field \<in> set [''id'', ''name'']. js_get x field \<in> falsy_values))
   \<and> (snd (validatePost x) = False
      \<longleftrightarrow> (\<exists>field \<in> set [''id'', ''title'']. js_get x field \<in> falsy_values))
   \<and> (snd (validateComment x) = False
      \<longleftrightarrow> (\<exists>field \<in> set [''id'', ''body'', ''email'']. js_get x field \<in> falsy_values))
   \<and> (js_get x ''id'' = JNum 0 \<longrightarrow> snd (validateUser x) = False)"
  by (auto simp: validateUser_def validatePost_def validateComment_def Let_def truthy_iff
      falsy_values_def)

theorem validators_false_iff_required_field_falsy_witness:
  "js_get [(''id'', JNum 0), (''name'', JStr ''Ann'')] ''id'' = JNum 0
   \<and> snd (validateUser [(''id'', JNum 0), (''name'', JStr ''Ann'')]) = False
   \<and> snd (validateUser [(''id'', JNum 2), (''name'', JStr ''Ann'')]) = True"
  using validators_false_iff_required_field_falsy
          [of "[(''id'', JNum 0), (''name'', JStr ''Ann'')]"]
        validators_false_iff_required_field_falsy
          [of "[(''id'', JNum 2), (''name'', JStr ''Ann'')]"]
  by (simp add: js_get_def falsy_values_def)

section \<open>Retry with exponential back-off\<close>

lemma network_events_append [simp]:
  "network_events (xs @ ys) = network_events xs @ network_events ys"
  by (simp add: network_events_def)

lemma network_events_simps [simp]:
  "network_events [] = []"
  "network_events (Log l m # tr) = network_events tr"
  "network_events (HttpGet u # tr) = HttpGet u # network_events tr"
  "network_events (Sleep d # tr) = Sleep d # network_events tr"
  "network_events (CsvWrite rs # tr) = network_events tr"
  "network_events (Logger_info m) = []"
  "network_events (Logger_warn m) = []"
  "network_events (Logger_error m e) = []"
  by (simp_all add: network_events_def Logger_info_def Logger_warn_def Logger_error_def
      split: option.splits)

lemma attempts_network_events: "attempts (network_events tr) = attempts tr"
  by (induction tr rule: attempts.induct) simp_all

lemma waits_network_events: "waits (network_events tr) = waits tr"
  by (induction tr rule: waits.induct) simp_all

lemma attempts_append [simp]: "attempts (xs @ ys) = attempts xs @ attempts ys"
  by (induction xs rule: attempts.induct) simp_all

lemma waits_append [simp]: "waits (xs @ ys) = waits xs @ waits ys"
  by (induction xs rule: waits.induct) simp_all

lemma attempts_rounds:
  "attempts (concat (map (\<lambda>i. [HttpGet url, Sleep (f i)]) js)) = replicate (length js) url"
  by (induction js) simp_all

lemma waits_rounds:
  "waits (concat (map (\<lambda>i. [HttpGet url, Sleep (f i)]) js)) = map f js"
  by (induction js) simp_all

lemma request_ok:
  "axios_get w url r = Inr data \<Longrightarrow>
   request cfg w url r =
     (Logger_info (''Making request to: '' @ url) @ [HttpGet url]
        @ Logger_info (''Request successful: '' @ url), Inr data)"
  by (subst request.simps) simp

lemma request_retry:
  "axios_get w url r = Inl e \<Longrightarrow> r < maxRetries cfg \<Longrightarrow>
   network_events (fst (request cfg w url r))
     = HttpGet url # Sleep (setTimeout_delay (js_times (retryDelay cfg) (Math_pow_2 r)))
         # network_events (fst (request cfg w url (Suc r)))
   \<and> snd (request cfg w url r) = snd (request cfg w url (Suc r))"
  by (simp add: request.simps [of cfg w url r] Let_def split: prod.splits)

lemma request_give_up:
  "axios_get w url r = Inl e \<Longrightarrow> \<not> r < maxRetries cfg \<Longrightarrow>
   request cfg w url r =
     (Logger_info (''Making request to: '' @ url) @ [HttpGet url]
        @ Logger_error (''Request failed after ''
             @ Number_toString w (Finite (maxRetries cfg))
             @ '' retries: '' @ url) (Some (message e)), Inl e)"
  by (subst request.simps) simp

lemma request_failing_from:
  assumes "\<forall>k. r \<le> k \<and> k \<le> maxRetries cfg \<longrightarrow> axios_get w url k = Inl (err k)"
    and "r \<le> maxRetries cfg"
  shows "network_events (fst (request cfg w url r))
           = concat (map (\<lambda>i. [HttpGet url,
                                 Sleep (setTimeout_delay
                                          (js_times (retryDelay cfg) (Math_pow_2 i)))])
                       [r..<maxRetries cfg]) @ [HttpGet url]
         \<and> snd (request cfg w url r) = Inl (err (maxRetries cfg))"
  using assms
proof (induction "maxRetries cfg - r" arbitrary: r)
  case 0
  then have r: "r = maxRetries cfg" by simp
  with 0 have "axios_get w url r = Inl (err r)" by simp
  then show ?case
    using r by (simp add: request_give_up)
next
  case (Suc d)
  then have lt: "r < maxRetries cfg" by simp
  with Suc.prems have a: "axios_get w url r = Inl (err r)" by simp
  have ih: "network_events (fst (request cfg w url (Suc r)))
           = concat (map (\<lambda>i. [HttpGet url,
                                 Sleep (setTimeout_delay
                                          (js_times (retryDelay cfg) (Math_pow_2 i)))])
                       [Suc r..<maxRetries cfg]) @ [HttpGet url]
         \<and> snd (request cfg w url (Suc r)) = Inl (err (maxRetries cfg))"
    using Suc.hyps(1) [of "Suc r"] Suc.hyps(2) Suc.prems lt by simp
  show ?case
    using request_retry [OF a lt] lt ih
    by (simp add: upt_conv_Cons)
qed

lemma timer_in_range:
  assumes "1 \<le> d * 2 ^ i" and "d * 2 ^ i \<le> 2147483647"
  shows "setTimeout_delay (js_times d (Math_pow_2 i)) = d * 2 ^ i"
proof -
  from assms(1) have d: "1 \<le> d"
    by (cases d) simp_all
  then have "(2::nat) ^ i \<le> d * 2 ^ i"
    by simp
  from this assms(2) have "(2::nat) ^ i \<le> 2147483647"
    by (rule le_trans)
  then have "(2::nat) ^ i < 2 ^ 31"
    by simp
  then have i: "i < 31"
    by (simp only: power_strict_increasing_iff rel_simps)
  have "d * 2 ^ i < (2::nat) ^ 1024"
    using assms(2) by simp
  with i assms show ?thesis
    by (simp add: Math_pow_2_def)
qed

text \<open>
  C1, amended: when every attempt for a URL fails, \<open>request\<close> issues exactly
  \<open>maxRetries + 1\<close> GET requests for it and then raises the error of the last attempt
  (\<open>maxRetries\<close> being at most \<open>2 ^ 53\<close>, as far as the source's counter counts).
  After the attempt with counter \<open>i\<close>, for \<open>i = 0 .. maxRetries - 1\<close>, it sets a timer
  with the delay \<open>retryDelay * 2 ^ i\<close>, which Node turns into 1 ms when it is 0 or
  above \<open>2 ^ 31 - 1\<close>. When all these delays are between 1 and \<open>2 ^ 31 - 1\<close>, the waits
  are \<open>retryDelay * 2 ^ i\<close>, the requests and the waits alternating.
\<close>

theorem request_permanent_failure:
  assumes "\<forall>k \<le> maxRetries cfg. axios_get w url k = Inl (err k)"
    and "maxRetries cfg \<le> 2 ^ 53"
  shows "attempts (fst (request cfg w url 0)) = replicate (maxRetries cfg + 1) url
         \<and> waits (fst (request cfg w url 0))
             = map (\<lambda>i. setTimeout_delay (js_times (retryDelay cfg) (Math_pow_2 i)))
                 [0..<maxRetries cfg]
         \<and> snd (request cfg w url 0) = Inl (err (maxRetries cfg))
         \<and> ((\<forall>i < maxRetries cfg. 1 \<le> retryDelay cfg * 2 ^ i
                                    \<and> retryDelay cfg * 2 ^ i \<le> 2147483647) \<longrightarrow>
               network_events (fst (request cfg w url 0))
                 = backoff_schedule url (retryDelay cfg) (maxRetries cfg)
             \<and> waits (fst (request cfg w url 0))
                 = map (\<lambda>i. retryDelay cfg * 2 ^ i) [0..<maxRetries cfg])"
proof -
  let ?timer = "\<lambda>i. setTimeout_delay (js_times (retryDelay cfg) (Math_pow_2 i))"
  have run: "network_events (fst (request cfg w url 0))
                = concat (map (\<lambda>i. [HttpGet url, Sleep (?timer i)]) [0..<maxRetries cfg])
                    @ [HttpGet url]
              \<and> snd (request cfg w url 0) = Inl (err (maxRetries cfg))"
    using request_failing_from [of 0 cfg w url err] assms(1) by simp
  have tries: "attempts (fst (request cfg w url 0)) = replicate (maxRetries cfg + 1) url"
    using run attempts_network_events [of "fst (request cfg w url 0)"]
    by (simp add: attempts_rounds replicate_append_same)
  have timers: "waits (fst (request cfg w url 0)) = map ?timer [0..<maxRetries cfg]"
    using run waits_network_events [of "fst (request cfg w url 0)"]
    by (simp add: waits_rounds)
  have plain: "network_events (fst (request cfg w url 0))
                 = backoff_schedule url (retryDelay cfg) (maxRetries cfg)
             \<and> waits (fst (request cfg w url 0))
                 = map (\<lambda>i. retryDelay cfg * 2 ^ i) [0..<maxRetries cfg]"
    if range: "\<forall>i < maxRetries cfg. 1 \<le> retryDelay cfg * 2 ^ i
                                    \<and> retryDelay cfg * 2 ^ i \<le> 2147483647"
  proof -
    have same: "map ?timer [0..<maxRetries cfg]
                  = map (\<lambda>i. retryDelay cfg * 2 ^ i) [0..<maxRetries cfg]"
      using range by (intro map_cong refl) (simp add: timer_in_range)
    have "map (\<lambda>i. [HttpGet url, Sleep (?timer i)]) [0..<maxRetries cfg]
            = map (\<lambda>i. [HttpGet url, Sleep (retryDelay cfg * 2 ^ i)]) [0..<maxRetries cfg]"
      using range by (intro map_cong refl) (simp add: timer_in_range)
    with run have "network_events (fst (request cfg w url 0))
                 = backoff_schedule url (retryDelay cfg) (maxRetries cfg)"
      by (simp only: backoff_schedule_def)
    with timers same show ?thesis
      by simp
  qed
  from tries timers run plain show ?thesis
    by blast
qed

text \<open>
  C1 as stated fails for a large delay: with \<open>maxRetries = 1\<close> and
  \<open>retryDelay = 2 ^ 31\<close> the one wait is the 1 ms Node sets the timer to, not the
  2147483648 ms of \<open>retryDelay * 2 ^ 0\<close>.
\<close>

theorem request_wait_counterexample:
  "maxRetries long_delay_config = 1
   \<and> map (\<lambda>i. retryDelay long_delay_config * 2 ^ i) [0..<maxRetries long_delay_config]
       = [2147483648]
   \<and> attempts (fst (request long_delay_config world_down ''http://x/users'' 0))
       = [''http://x/users'', ''http://x/users'']
   \<and> waits (fst (request long_delay_config world_down ''http://x/users'' 0)) = [1]
   \<and> snd (request long_delay_config world_down ''http://x/users'' 0)
       = Inl (JsError ''ECONNREFUSED'')"
proof -
  have h: "\<forall>k. 0 \<le> k \<and> k \<le> maxRetries long_delay_config
             \<longrightarrow> axios_get world_down ''http://x/users'' k
                   = Inl ((\<lambda>k. JsError ''ECONNREFUSED'') k)"
    by (simp add: world_down_def)
  have n: "maxRetries long_delay_config = 1" "retryDelay long_delay_config = 2147483648"
    by (simp_all add: long_delay_config_def CONFIG_def)
  have run: "network_events (fst (request long_delay_config world_down ''http://x/users'' 0))
               = [HttpGet ''http://x/users'', Sleep 1, HttpGet ''http://x/users'']
             \<and> snd (request long_delay_config world_down ''http://x/users'' 0)
               = Inl (JsError ''ECONNREFUSED'')"
    using request_failing_from [OF h] by (simp add: n Math_pow_2_def)
  have tries: "attempts (fst (request long_delay_config world_down ''http://x/users'' 0))
          = [''http://x/users'', ''http://x/users'']"
    using run
      attempts_network_events [of "fst (request long_delay_config world_down
                                           ''http://x/users'' 0)"]
    by simp
  have timers: "waits (fst (request long_delay_config world_down ''http://x/users'' 0)) = [1]"
    using run
      waits_network_events [of "fst (request long_delay_config world_down
                                        ''http://x/users'' 0)"]
    by simp
  have claimed: "map (\<lambda>i. retryDelay long_delay_config * 2 ^ i)
                   [0..<maxRetries long_delay_config] = [2147483648]"
    by (simp add: n)
  from n(1) claimed tries timers run show ?thesis
    by blast
qed

theorem request_permanent_failure_witness:
  "axios_get world_down ''http://x/users'' 3 = Inl (JsError ''ECONNREFUSED'')
   \<and> attempts (fst (request CONFIG world_down ''http://x/users'' 0))
       = [''http://x/users'', ''http://x/users'', ''http://x/users'', ''http://x/users'']
   \<and> waits (fst (request CONFIG world_down ''http://x/users'' 0)) = [1000, 2000, 4000]
   \<and> network_events (fst (request CONFIG world_down ''http://x/users'' 0))
       = [HttpGet ''http://x/users'', Sleep 1000, HttpGet ''http://x/users'', Sleep 2000,
          HttpGet ''http://x/users'', Sleep 4000, HttpGet ''http://x/users'']
   \<and> snd (request CONFIG world_down ''http://x/users'' 0) = Inl (JsError ''ECONNREFUSED'')"
proof -
  have h: "\<forall>k \<le> maxRetries CONFIG. axios_get world_down ''http://x/users'' k
             = Inl ((\<lambda>k. JsError ''ECONNREFUSED'') k)"
    by (simp add: world_down_def)
  have n: "maxRetries CONFIG = 3" "retryDelay CONFIG = 1000"
    by (simp_all add: CONFIG_def)
  have small: "maxRetries CONFIG \<le> 2 ^ 53"
    by (simp add: n)
  have u: "[0..<3] = [0, 1, 2]"
    by (simp add: upt_conv_Cons)
  have range: "\<forall>i < maxRetries CONFIG. 1 \<le> retryDelay CONFIG * 2 ^ i
                                    \<and> retryDelay CONFIG * 2 ^ i \<le> 2147483647"
    by (simp add: n numeral_3_eq_3 less_Suc_eq)
  note inst = request_permanent_failure [OF h small]
  from inst [THEN conjunct1]
  have tries: "attempts (fst (request CONFIG world_down ''http://x/users'' 0))
       = [''http://x/users'', ''http://x/users'', ''http://x/users'', ''http://x/users'']"
    by (simp add: n numeral_3_eq_3)
  from inst [THEN conjunct2, THEN conjunct2, THEN conjunct1]
  have err: "snd (request CONFIG world_down ''http://x/users'' 0)
               = Inl (JsError ''ECONNREFUSED'')" .
  from inst [THEN conjunct2, THEN conjunct2, THEN conjunct2] range
  have "network_events (fst (request CONFIG world_down ''http://x/users'' 0))
                 = backoff_schedule ''http://x/users'' (retryDelay CONFIG) (maxRetries CONFIG)
             \<and> waits (fst (request CONFIG world_down ''http://x/users'' 0))
                 = map (\<lambda>i. retryDelay CONFIG * 2 ^ i) [0..<maxRetries CONFIG]"
    by blast
  then have sched: "network_events (fst (request CONFIG world_down ''http://x/users'' 0))
       = [HttpGet ''http://x/users'', Sleep 1000, HttpGet ''http://x/users'', Sleep 2000,
          HttpGet ''http://x/users'', Sleep 4000, HttpGet ''http://x/users'']
     \<and> waits (fst (request CONFIG world_down ''http://x/users'' 0)) = [1000, 2000, 4000]"
    by (simp add: backoff_schedule_def n u)
  have down: "axios_get world_down ''http://x/users'' 3 = Inl (JsError ''ECONNREFUSED'')"
    by (simp add: world_down_def)
  from down tries sched err show ?thesis
    by blast
qed

section \<open>The loops of the orchestrator\<close>

lemma forEach_comment_rows:
  "snd (forEach_comment user post comments acc)
     = acc @ map (flat_record_of user post)
               (filter (\<lambda>comment. snd (validateComment comment)) comments)"
  by (induction comments arbitrary: acc) (simp_all add: case_prod_beta)

lemma forEach_post_rows:
  "snd (forEach_post user pcs acc)
     = acc @ concat (map (\<lambda>(post, comments). map (flat_record_of user post)
                 (filter (\<lambda>comment. snd (validateComment comment)) comments)) pcs)"
proof (induction pcs arbitrary: acc)
  case Nil
  show ?case by simp
next
  case (Cons pc pcs)
  obtain post comments where pc: "pc = (post, comments)" by (cases pc)
  show ?case
    using Cons.IH [of "snd (forEach_comment user post comments acc)"]
          forEach_comment_rows [of user post comments acc]
    by (simp add: pc case_prod_beta)
qed

lemma Promise_all_map_results: "snd (Promise_all_map task xs) = map (\<lambda>x. snd (task x)) xs"
  by (induction xs) (simp_all add: case_prod_beta)

lemma Promise_all_map_events:
  "fst (Promise_all_map task xs) = concat (map (\<lambda>x. fst (task x)) xs)"
  by (induction xs) (simp_all add: case_prod_beta)

lemma post_task_result:
  "snd (post_task cfg w post)
     = (post, if snd (validatePost post) then fetched_comments cfg w post else [])"
  by (auto simp: post_task_def fetched_comments_def split: prod.splits bool.splits sum.splits)

lemma forEach_post_tasks:
  "snd (forEach_post user (map (\<lambda>post. snd (post_task cfg w post)) posts) acc)
     = acc @ concat (map (post_rows cfg w user) posts)"
  by (induction posts arbitrary: acc)
     (simp_all add: post_task_result forEach_comment_rows post_rows_def case_prod_beta)

lemma process_user_rows:
  "snd (process_user cfg w user acc) = acc @ user_rows cfg w user"
proof (cases "snd (validateUser user)")
  case False
  then show ?thesis
    by (auto simp: process_user_def user_rows_def split: prod.splits bool.splits)
next
  case valid: True
  show ?thesis
  proof (cases "snd (getPostsByUserId cfg w (js_get user ''id''))")
    case (Inl e)
    with valid show ?thesis
      by (auto simp: process_user_def user_rows_def fetched_posts_def
          split: prod.splits bool.splits sum.splits)
  next
    case (Inr posts)
    have "snd (forEach_post user (snd (Promise_all_map (post_task cfg w) posts)) acc)
            = acc @ concat (map (post_rows cfg w user) posts)"
      by (simp add: Promise_all_map_results forEach_post_tasks)
    with valid Inr show ?thesis
      by (auto simp: process_user_def user_rows_def fetched_posts_def
          split: prod.splits bool.splits sum.splits)
  qed
qed

lemma for_users_rows:
  "snd (for_users cfg w users acc) = acc @ concat (map (user_rows cfg w) users)"
proof (induction users arbitrary: acc)
  case Nil
  show ?case by simp
next
  case (Cons user users)
  show ?case
    using Cons.IH [of "snd (process_user cfg w user acc)"] process_user_rows [of cfg w user acc]
    by (simp add: case_prod_beta)
qed

lemma user_rows_invalid: "\<not> snd (validateUser user) \<Longrightarrow> user_rows cfg w user = []"
  by (simp add: user_rows_def)

lemma even_users_rows:
  "concat (map (user_rows cfg w) (filter (\<lambda>user. is_even_id w (js_get user ''id'')) users))
     = run_rows cfg w users"
  by (induction users) (auto simp: run_rows_def surviving_users_def user_rows_invalid)

section \<open>The events of a run\<close>

lemma csv_writes_append [simp]: "csv_writes (xs @ ys) = csv_writes xs @ csv_writes ys"
  by (induction xs rule: csv_writes.induct) simp_all

lemma csv_writes_Logger [simp]:
  "csv_writes (Logger_info m) = []"
  "csv_writes (Logger_warn m) = []"
  "csv_writes (Logger_error m e) = []"
  by (simp_all add: Logger_info_def Logger_warn_def Logger_error_def split: option.splits)

lemma csv_writes_concat: "(\<And>x. x \<in> set xs \<Longrightarrow> csv_writes (f x) = []) \<Longrightarrow> csv_writes (concat (map f xs)) = []"
  by (induction xs) simp_all

lemma request_retry_unfold:
  "axios_get w url r = Inl e \<Longrightarrow> r < maxRetries cfg \<Longrightarrow>
   request cfg w url r =
     (Logger_info (''Making request to: '' @ url) @ [HttpGet url]
        @ Logger_warn (''Request failed, retrying in ''
             @ Number_toString w (js_times (retryDelay cfg) (Math_pow_2 r))
             @ ''ms (attempt '' @ Number_toString w (Finite (r + 1)) @ ''/''
             @ Number_toString w (Finite (maxRetries cfg)) @ ''): '' @ url)
        @ [Sleep (setTimeout_delay (js_times (retryDelay cfg) (Math_pow_2 r)))]
        @ fst (request cfg w url (Suc r)),
      snd (request cfg w url (Suc r)))"
  by (simp add: request.simps [of cfg w url r] Let_def case_prod_beta)

lemma csv_writes_request [simp]: "csv_writes (fst (request cfg w url r)) = []"
proof (induction "maxRetries cfg - r" arbitrary: r rule: less_induct)
  case less
  show ?case
  proof (cases "axios_get w url r")
    case (Inr data)
    then show ?thesis by (simp add: request_ok)
  next
    case (Inl e)
    show ?thesis
    proof (cases "r < maxRetries cfg")
      case True
      then have "csv_writes (fst (request cfg w url (Suc r))) = []"
        using less [of "Suc r"] by simp
      with Inl True show ?thesis by (simp add: request_retry_unfold)
    next
      case False
      with Inl show ?thesis by (simp add: request_give_up)
    qed
  qed
qed

lemma csv_writes_getUsers [simp]: "csv_writes (fst (getUsers cfg w)) = []"
  by (simp add: getUsers_def case_prod_beta split: sum.splits shape.splits)

lemma csv_writes_getPostsByUserId [simp]: "csv_writes (fst (getPostsByUserId cfg w uid)) = []"
  by (simp add: getPostsByUserId_def case_prod_beta Let_def split: sum.splits)

lemma csv_writes_getCommentsByPostId [simp]:
  "csv_writes (fst (getCommentsByPostId cfg w pid)) = []"
  by (simp add: getCommentsByPostId_def case_prod_beta Let_def split: sum.splits)

lemma csv_writes_validate [simp]:
  "csv_writes (fst (validateUser x)) = []"
  "csv_writes (fst (validatePost x)) = []"
  "csv_writes (fst (validateComment x)) = []"
  by (simp_all add: validateUser_def validatePost_def validateComment_def Let_def)

lemma csv_writes_post_task [simp]: "csv_writes (fst (post_task cfg w post)) = []"
  by (simp add: post_task_def case_prod_beta split: sum.splits bool.splits)

lemma csv_writes_Promise_all_map [simp]:
  "csv_writes (fst (Promise_all_map (post_task cfg w) posts)) = []"
  by (induction posts) (simp_all add: case_prod_beta)

lemma csv_writes_forEach_comment [simp]:
  "csv_writes (fst (forEach_comment user post comments acc)) = []"
  by (induction comments arbitrary: acc) (simp_all add: case_prod_beta)

lemma csv_writes_forEach_post [simp]:
  "csv_writes (fst (forEach_post user pcs acc)) = []"
proof (induction pcs arbitrary: acc)
  case Nil
  show ?case by simp
next
  case (Cons pc pcs)
  then show ?case by (cases pc) (simp add: case_prod_beta)
qed

lemma csv_writes_process_user [simp]: "csv_writes (fst (process_user cfg w user acc)) = []"
  by (simp add: process_user_def case_prod_beta split: sum.splits bool.splits)

lemma csv_writes_for_users [simp]: "csv_writes (fst (for_users cfg w users acc)) = []"
  by (induction users arbitrary: acc) (simp_all add: case_prod_beta)

lemma for_users_even_rows:
  "snd (for_users cfg w (filter (\<lambda>user. is_even_id w (js_get user ''id'')) users) [])
     = run_rows cfg w users"
  by (simp add: for_users_rows even_users_rows)

lemma process_fatal:
  "snd (getUsers cfg w) = Inl e \<Longrightarrow>
   snd (process cfg w) = Inl e \<and> csv_writes (fst (process cfg w)) = []"
  using csv_writes_getUsers [of cfg w]
  by (simp add: process_def case_prod_beta del: csv_writes_getUsers)

lemma process_unfit:
  "snd (getUsers cfg w) = Inr (Unfit e) \<Longrightarrow>
   snd (process cfg w) = Inl e \<and> csv_writes (fst (process cfg w)) = []"
  using csv_writes_getUsers [of cfg w]
  by (simp add: process_def case_prod_beta del: csv_writes_getUsers)

lemma process_no_rows:
  "snd (getUsers cfg w) = Inr (Items users) \<Longrightarrow> run_rows cfg w users = [] \<Longrightarrow>
   snd (process cfg w) = Inr () \<and> csv_writes (fst (process cfg w)) = []"
  using csv_writes_getUsers [of cfg w] for_users_even_rows [of cfg w users]
  by (simp add: process_def case_prod_beta Let_def del: csv_writes_getUsers)

lemma process_rows:
  "snd (getUsers cfg w) = Inr (Items users) \<Longrightarrow> run_rows cfg w users \<noteq> [] \<Longrightarrow>
   snd (process cfg w)
     = (case csv_write w (run_rows cfg w users) of None \<Rightarrow> Inr () | Some e \<Rightarrow> Inl e)
   \<and> csv_writes (fst (process cfg w)) = [run_rows cfg w users]"
  using csv_writes_getUsers [of cfg w] for_users_even_rows [of cfg w users]
  by (simp add: process_def writeRecords_def case_prod_beta Let_def
      del: csv_writes_getUsers split: option.splits)

lemma main_exit: "snd (main cfg w) = (case snd (process cfg w) of Inr _ \<Rightarrow> 0 | Inl _ \<Rightarrow> 1)"
  by (simp add: main_def case_prod_beta split: sum.splits)

lemma main_csv_writes: "csv_writes (fst (main cfg w)) = csv_writes (fst (process cfg w))"
  by (simp add: main_def case_prod_beta split: sum.splits)

lemma CsvWrite_in_trace: "CsvWrite rs \<in> set tr \<longleftrightarrow> rs \<in> set (csv_writes tr)"
  by (induction tr rule: csv_writes.induct) auto

section \<open>What reaches the output\<close>

lemma main_output:
  "snd (getUsers cfg w) = Inr (Items users) \<Longrightarrow>
   csv_writes (fst (main cfg w))
     = (if run_rows cfg w users = [] then [] else [run_rows cfg w users])"
  using process_no_rows [of cfg w users] process_rows [of cfg w users]
  by (simp add: main_csv_writes)

lemma main_output_fatal:
  "snd (getUsers cfg w) = Inl e \<Longrightarrow> csv_writes (fst (main cfg w)) = []"
  using process_fatal [of cfg w e] by (simp add: main_csv_writes)

lemma main_output_unfit:
  "snd (getUsers cfg w) = Inr (Unfit e) \<Longrightarrow> csv_writes (fst (main cfg w)) = []"
  using process_unfit [of cfg w e] by (simp add: main_csv_writes)

lemma written_rows:
  assumes "CsvWrite rows \<in> set (fst (main cfg w))"
  shows "\<exists>users. snd (getUsers cfg w) = Inr (Items users) \<and> rows = run_rows cfg w users"
proof (cases "snd (getUsers cfg w)")
  case (Inl e)
  with assms show ?thesis
    by (simp add: CsvWrite_in_trace main_output_fatal)
next
  case (Inr b)
  show ?thesis
  proof (cases b)
    case (Items users)
    with Inr assms show ?thesis
      by (simp add: CsvWrite_in_trace main_output split: if_splits)
  next
    case (Unfit e)
    with Inr assms show ?thesis
      by (simp add: CsvWrite_in_trace main_output_unfit)
  qed
qed

lemma getUsers_request:
  "snd (getUsers cfg w)
     = (case snd (request cfg w (baseUrl cfg @ ''/users'') 0) of
          Inl e \<Rightarrow> Inl e
        | Inr users \<Rightarrow>
            (case users_shape w of
               ArrayOfObjects \<Rightarrow> Inr (Items users)
             | NullBody \<Rightarrow> Inl (JsError ''Cannot read properties of null (reading 'length')'')
             | NotArray len \<Rightarrow> Inr (Unfit (JsError ''users.filter is not a function''))
             | ArrayWithNull n \<Rightarrow>
                 Inr (Unfit (JsError ''Cannot read properties of null (reading 'id')''))))"
  by (simp add: getUsers_def case_prod_beta split: sum.splits shape.splits)

lemma getUsers_Items:
  "snd (getUsers cfg w) = Inr (Items users)
     \<longleftrightarrow> snd (request cfg w (baseUrl cfg @ ''/users'') 0) = Inr users
         \<and> users_shape w = ArrayOfObjects"
  by (auto simp: getUsers_request split: sum.splits shape.splits)

lemma set_sort_insert [simp]: "set (sort_insert comparefn x ys) = insert x (set ys)"
  by (induction ys) auto

lemma set_Array_sort [simp]: "set (Array_sort comparefn xs) = set xs"
  by (induction xs) (simp_all add: Array_sort_def)

lemma length_sort_insert [simp]: "length (sort_insert comparefn x ys) = Suc (length ys)"
  by (induction ys) auto

lemma length_Array_sort [simp]: "length (Array_sort comparefn xs) = length xs"
  by (induction xs) (simp_all add: Array_sort_def)

lemma fetched_posts_source:
  assumes "post \<in> set (fetched_posts cfg w user)"
  shows "\<exists>posts. snd (request cfg w (baseUrl cfg @ ''/posts?userId=''
                                      @ to_string (js_get user ''id'')) 0) = Inr posts
                 \<and> post \<in> set posts"
  using assms
  by (auto simp: fetched_posts_def getPostsByUserId_def case_prod_beta Let_def
      split: sum.splits dest: in_set_takeD)

lemma fetched_comments_source:
  assumes "comment \<in> set (fetched_comments cfg w post)"
  shows "\<exists>comments. snd (request cfg w (baseUrl cfg @ ''/comments?postId=''
                                         @ to_string (js_get post ''id'')) 0) = Inr comments
                    \<and> comment \<in> set comments"
  using assms
  by (auto simp: fetched_comments_def getCommentsByPostId_def case_prod_beta Let_def
      split: sum.splits dest: in_set_takeD)

lemma run_rows_source:
  assumes "r \<in> set (run_rows cfg w users)"
  shows "\<exists>user post comment.
           user \<in> set users \<and> is_even_id w (js_get user ''id'') \<and> snd (validateUser user)
         \<and> post \<in> set (fetched_posts cfg w user) \<and> snd (validatePost post)
         \<and> comment \<in> set (fetched_comments cfg w post) \<and> snd (validateComment comment)
         \<and> r = flat_record_of user post comment"
  using assms
  by (auto simp: run_rows_def surviving_users_def user_rows_def post_rows_def
      split: if_splits)

lemma run_rows_nested:
  "run_rows cfg w users
     = concat (map (\<lambda>user.
         concat (map (\<lambda>post.
           map (flat_record_of user post)
             (filter (\<lambda>comment. snd (validateComment comment)) (fetched_comments cfg w post)))
           (filter (\<lambda>post. snd (validatePost post)) (fetched_posts cfg w user))))
         (surviving_users w users))"
proof -
  have posts: "concat (map (post_rows cfg w user) posts)
      = concat (map (\<lambda>post.
           map (flat_record_of user post)
             (filter (\<lambda>comment. snd (validateComment comment)) (fetched_comments cfg w post)))
           (filter (\<lambda>post. snd (validatePost post)) posts))" for user posts
    by (induction posts) (simp_all add: post_rows_def)
  have users: "map (user_rows cfg w) (surviving_users w users)
      = map (\<lambda>user.
         concat (map (\<lambda>post.
           map (flat_record_of user post)
             (filter (\<lambda>comment. snd (validateComment comment)) (fetched_comments cfg w post)))
           (filter (\<lambda>post. snd (validatePost post)) (fetched_posts cfg w user))))
         (surviving_users w users)"
    by (rule map_cong) (simp_all add: user_rows_def surviving_users_def posts)
  show ?thesis
    unfolding run_rows_def users by (rule refl)
qed

text \<open>
  C8: the records of a run come user by user, in the order of the surviving users
  (even id, valid) in the fetched user list; within a user post by post, in the order
  of the list \<open>getPostsByUserId\<close> returned; within a post comment by comment, in the
  order of the list \<open>getCommentsByPostId\<close> returned. This is the list the loop
  accumulates and the only list ever handed to the CSV writer.
\<close>

theorem output_order:
  assumes "snd (getUsers cfg w) = Inr (Items users)"
  shows "snd (for_users cfg w (filter (\<lambda>user. is_even_id w (js_get user ''id'')) users) [])
           = concat (map (\<lambda>user.
               concat (map (\<lambda>post.
                 map (flat_record_of user post)
                   (filter (\<lambda>comment. snd (validateComment comment))
                      (fetched_comments cfg w post)))
                 (filter (\<lambda>post. snd (validatePost post)) (fetched_posts cfg w user))))
               (surviving_users w users))
         \<and> (\<forall>rows. CsvWrite rows \<in> set (fst (main cfg w)) \<longrightarrow>
               rows = snd (for_users cfg w
                             (filter (\<lambda>user. is_even_id w (js_get user ''id'')) users) []))"
proof -
  have "rows = run_rows cfg w users" if "CsvWrite rows \<in> set (fst (main cfg w))" for rows
    using written_rows [OF that] assms by simp
  then show ?thesis
    by (simp add: for_users_even_rows run_rows_nested [symmetric])
qed

text \<open>
  C2: every record handed to the CSV writer stems from a user of the fetched user
  list, a post of the list fetched for that user's id and a comment of the list
  fetched for that post's id, all three passing their validator, and its seven fields
  are the ids and the name, title, body and email of these three, unchanged.
\<close>

theorem record_round_trip:
  assumes "CsvWrite rows \<in> set (fst (main cfg w))" and "r \<in> set rows"
  shows "\<exists>users posts comments user post comment.
           snd (request cfg w (baseUrl cfg @ ''/users'') 0) = Inr users
         \<and> user \<in> set users
         \<and> snd (request cfg w (baseUrl cfg @ ''/posts?userId=''
                                  @ to_string (js_get user ''id'')) 0) = Inr posts
         \<and> post \<in> set posts
         \<and> snd (request cfg w (baseUrl cfg @ ''/comments?postId=''
                                  @ to_string (js_get post ''id'')) 0) = Inr comments
         \<and> comment \<in> set comments
         \<and> snd (validateUser user) \<and> snd (validatePost post) \<and> snd (validateComment comment)
         \<and> userId r = js_get user ''id'' \<and> userName r = js_get user ''name''
         \<and> postId r = js_get post ''id'' \<and> postTitle r = js_get post ''title''
         \<and> commentId r = js_get comment ''id'' \<and> commentBody r = js_get comment ''body''
         \<and> commentEmail r = js_get comment ''email''"
proof -
  from written_rows [OF assms(1)] obtain users
    where users: "snd (getUsers cfg w) = Inr (Items users)" and rows: "rows = run_rows cfg w users"
    by blast
  from run_rows_source [of r cfg w users] assms(2) rows obtain user post comment
    where src: "user \<in> set users" "snd (validateUser user)"
      "post \<in> set (fetched_posts cfg w user)" "snd (validatePost post)"
      "comment \<in> set (fetched_comments cfg w post)" "snd (validateComment comment)"
      "r = flat_record_of user post comment"
    by blast
  from fetched_posts_source [OF src(3)] obtain posts
    where posts: "snd (request cfg w (baseUrl cfg @ ''/posts?userId=''
                         @ to_string (js_get user ''id'')) 0) = Inr posts" "post \<in> set posts"
    by blast
  from fetched_comments_source [OF src(5)] obtain comments
    where comments: "snd (request cfg w (baseUrl cfg @ ''/comments?postId=''
                         @ to_string (js_get post ''id'')) 0) = Inr comments"
      "comment \<in> set comments"
    by blast
  have fields: "userId r = js_get user ''id'' \<and> userName r = js_get user ''name''
         \<and> postId r = js_get post ''id'' \<and> postTitle r = js_get post ''title''
         \<and> commentId r = js_get comment ''id'' \<and> commentBody r = js_get comment ''body''
         \<and> commentEmail r = js_get comment ''email''"
    by (simp add: src(7) flat_record_of_def)
  from users have "snd (request cfg w (baseUrl cfg @ ''/users'') 0) = Inr users"
    by (simp add: getUsers_Items)
  with src posts comments fields show ?thesis
    by blast
qed
section \<open>A run against the demo server\<close>

lemma request_result_ok:
  "axios_get w url 0 = Inr data \<Longrightarrow> snd (request cfg w url 0) = Inr data"
  by (simp add: request_ok)

lemma request_result_down:
  assumes "\<forall>k. axios_get w url k = Inl e"
  shows "snd (request cfg w url 0) = Inl e"
  using request_failing_from [of 0 cfg w url "\<lambda>k. e"] assms by simp

lemma getPostsByUserId_result:
  "snd (getPostsByUserId cfg w uid)
     = (case snd (request cfg w (baseUrl cfg @ ''/posts?userId='' @ to_string uid) 0) of
          Inl e \<Rightarrow> Inl e
        | Inr posts \<Rightarrow> Inr (take (postsPerUser cfg) (Array_sort (compare_items w) posts)))"
  by (simp add: getPostsByUserId_def case_prod_beta Let_def split: sum.splits)

lemma getCommentsByPostId_result:
  "snd (getCommentsByPostId cfg w pid)
     = (case snd (request cfg w (baseUrl cfg @ ''/comments?postId='' @ to_string pid) 0) of
          Inl e \<Rightarrow> Inl e
        | Inr comments \<Rightarrow>
            Inr (take (commentsPerPost cfg) (Array_sort (compare_items w) comments)))"
  by (simp add: getCommentsByPostId_def case_prod_beta Let_def split: sum.splits)

lemma validate_results:
  "snd (validateUser x) \<longleftrightarrow> truthy (js_get x ''id'') \<and> truthy (js_get x ''name'')"
  "snd (validatePost x) \<longleftrightarrow> truthy (js_get x ''id'') \<and> truthy (js_get x ''title'')"
  "snd (validateComment x)
     \<longleftrightarrow> truthy (js_get x ''id'') \<and> truthy (js_get x ''body'') \<and> truthy (js_get x ''email'')"
  by (auto simp: validateUser_def validatePost_def validateComment_def Let_def)

lemma is_even_id_number: "to_number w v = Some n \<Longrightarrow> is_even_id w v \<longleftrightarrow> even n"
  by (auto simp: is_even_id_def smod_int_alt_def sgn_if abs_if even_iff_mod_2_eq_zero
      odd_iff_mod_2_eq_one split: if_splits) 

lemma is_even_id_JNum [simp]: "is_even_id w (JNum n) \<longleftrightarrow> even n"
  by (simp add: is_even_id_number)

lemmas demo_simps =
  CONFIG_def world_demo_def world_sink_down_def demo_server_def demo_users_def
  getPostsByUserId_result getCommentsByPostId_result getUsers_request
  request_result_ok request_result_down fetched_posts_def fetched_comments_def
  validate_results js_get_def show_int_def show_nat.simps
  Array_sort_def compare_items_def js_and_def

lemma demo_getUsers: "snd (getUsers CONFIG world_demo) = Inr (Items demo_users)"
  by (simp add: CONFIG_def world_demo_def demo_server_def getUsers_request request_result_ok)

lemma demo_getUsers_sink_down: "snd (getUsers CONFIG world_sink_down) = Inr (Items demo_users)"
  by (simp add: CONFIG_def world_sink_down_def demo_server_def getUsers_request
      request_result_ok)

lemma demo_surviving:
  "surviving_users world_demo demo_users
     = [[(''id'', JNum 2), (''name'', JStr ''Ann'')],
        [(''id'', JNum 4), (''name'', JStr ''Cy'')],
        [(''id'', JNum 6), (''name'', JStr ''Dee'')]]"
  by (simp add: surviving_users_def demo_users_def validate_results js_get_def)

lemma demo_posts_2:
  "snd (getPostsByUserId CONFIG world_demo (JNum 2))
     = Inr [[(''id'', JNum 12), (''title'', JStr ''Bye'')],
            [(''id'', JNum 11), (''title'', JStr '''')],
            [(''id'', JNum 10), (''title'', JStr ''Hello'')]]"
  by (simp add: demo_simps)

lemma demo_posts_4:
  "snd (getPostsByUserId CONFIG world_demo (JNum 4))
     = Inl (JsError ''Request failed with status code 500'')"
  by (simp add: demo_simps)

lemma demo_posts_6:
  "snd (getPostsByUserId CONFIG world_demo (JNum 6))
     = Inr [[(''id'', JNum 60), (''title'', JStr ''Six'')]]"
  by (simp add: demo_simps)

lemma demo_comments_10:
  "snd (getCommentsByPostId CONFIG world_demo (JNum 10))
     = Inr [[(''id'', JNum 102), (''body'', JStr ''z''), (''email'', JStr ''d@e.f'')],
            [(''id'', JNum 101), (''body'', JStr ''y'')],
            [(''id'', JNum 100), (''body'', JStr ''x''), (''email'', JStr ''a@b.c'')]]"
  by (simp add: demo_simps)

lemma demo_comments_12:
  "snd (getCommentsByPostId CONFIG world_demo (JNum 12))
     = Inl (JsError ''Request failed with status code 500'')"
  by (simp add: demo_simps)

lemma demo_comments_60:
  "snd (getCommentsByPostId CONFIG world_demo (JNum 60))
     = Inr [[(''id'', JNum 600), (''body'', JStr ''s''), (''email'', JStr ''s@s.s'')]]"
  by (simp add: demo_simps)

lemmas demo_fetches =
  demo_posts_2 demo_posts_4 demo_posts_6 demo_comments_10 demo_comments_12 demo_comments_60

lemma demo_run_rows: "run_rows CONFIG world_demo demo_users = demo_rows"
  by (simp add: run_rows_def demo_surviving user_rows_def post_rows_def fetched_posts_def
      fetched_comments_def demo_fetches validate_results js_get_def flat_record_of_def
      demo_rows_def)

lemma demo_written: "CsvWrite demo_rows \<in> set (fst (main CONFIG world_demo))"
  using main_output [OF demo_getUsers]
  by (simp add: CsvWrite_in_trace demo_run_rows demo_rows_def)

theorem output_order_witness:
  "snd (getUsers CONFIG world_demo) = Inr (Items demo_users)
   \<and> snd (for_users CONFIG world_demo
            (filter (\<lambda>user. is_even_id world_demo (js_get user ''id'')) demo_users) [])
       = demo_rows
   \<and> CsvWrite demo_rows \<in> set (fst (main CONFIG world_demo))"
  using output_order [OF demo_getUsers] demo_getUsers demo_written
  by (simp add: run_rows_nested [symmetric] demo_run_rows)

theorem record_round_trip_witness:
  "CsvWrite demo_rows \<in> set (fst (main CONFIG world_demo))
   \<and> demo_rows ! 1 \<in> set demo_rows
   \<and> (\<exists>users posts comments user post comment.
           snd (request CONFIG world_demo (baseUrl CONFIG @ ''/users'') 0) = Inr users
         \<and> user \<in> set users
         \<and> snd (request CONFIG world_demo (baseUrl CONFIG @ ''/posts?userId=''
                                  @ to_string (js_get user ''id'')) 0) = Inr posts
         \<and> post \<in> set posts
         \<and> snd (request CONFIG world_demo (baseUrl CONFIG @ ''/comments?postId=''
                                  @ to_string (js_get post ''id'')) 0) = Inr comments
         \<and> comment \<in> set comments
         \<and> snd (validateUser user) \<and> snd (validatePost post) \<and> snd (validateComment comment)
         \<and> JNum 2 = js_get user ''id'' \<and> JStr ''Ann'' = js_get user ''name''
         \<and> JNum 10 = js_get post ''id'' \<and> JStr ''Hello'' = js_get post ''title''
         \<and> JNum 100 = js_get comment ''id'' \<and> JStr ''x'' = js_get comment ''body''
         \<and> JStr ''a@b.c'' = js_get comment ''email'')"
proof -
  have r: "demo_rows ! 1 \<in> set demo_rows"
    by (simp add: demo_rows_def)
  show ?thesis
    using record_round_trip [OF demo_written r] demo_written r
    by (simp add: demo_rows_def)
qed

section \<open>The even-id filter\<close>

lemma surviving_users_append [simp]:
  "surviving_users w (xs @ ys) = surviving_users w xs @ surviving_users w ys"
  by (simp add: surviving_users_def)

lemma surviving_users_odd:
  "\<not> is_even_id w (js_get u ''id'') \<Longrightarrow> surviving_users w (u # us) = surviving_users w us"
  by (simp add: surviving_users_def)

lemma run_rows_even:
  "r \<in> set (run_rows cfg w users) \<Longrightarrow> is_even_id w (userId r)"
  using run_rows_source [of r cfg w users] by (auto simp: flat_record_of_def)

text \<open>
  C9: a user whose id is an odd number is dropped by the filter whatever posts and
  comments it has: the run writes what the other users produce, and no record
  carries that user's id. Every record written has an even \<open>userId\<close> (as a number,
  after ToNumber).
\<close>

theorem odd_users_produce_no_rows:
  "(snd (getUsers cfg w) = Inr (Items (us1 @ u # us2)) \<and> to_number w (js_get u ''id'') = Some n
      \<and> odd n \<longrightarrow>
        csv_writes (fst (main cfg w))
          = (if run_rows cfg w (us1 @ us2) = [] then [] else [run_rows cfg w (us1 @ us2)])
      \<and> (\<forall>rows r. CsvWrite rows \<in> set (fst (main cfg w)) \<and> r \<in> set rows
            \<longrightarrow> userId r \<noteq> js_get u ''id''))
   \<and> (CsvWrite rows \<in> set (fst (main cfg w)) \<and> r \<in> set rows \<longrightarrow>
        is_even_id w (userId r) \<and> (\<forall>m. userId r = JNum m \<longrightarrow> even m))"
proof -
  have even_rows: "is_even_id w (userId r')"
    if "CsvWrite rows' \<in> set (fst (main cfg w))" "r' \<in> set rows'" for rows' r'
    using written_rows [OF that(1)] that(2) run_rows_even [of r' cfg w] by auto
  have odd_part: "csv_writes (fst (main cfg w))
          = (if run_rows cfg w (us1 @ us2) = [] then [] else [run_rows cfg w (us1 @ us2)])
      \<and> (\<forall>rows r. CsvWrite rows \<in> set (fst (main cfg w)) \<and> r \<in> set rows
            \<longrightarrow> userId r \<noteq> js_get u ''id'')"
    if users: "snd (getUsers cfg w) = Inr (Items (us1 @ u # us2))"
      and n: "to_number w (js_get u ''id'') = Some n" "odd n"
  proof -
    from n have odd: "\<not> is_even_id w (js_get u ''id'')"
      by (simp add: is_even_id_number)
    then have same: "run_rows cfg w (us1 @ u # us2) = run_rows cfg w (us1 @ us2)"
      by (simp add: run_rows_def surviving_users_odd)
    have out: "csv_writes (fst (main cfg w))
          = (if run_rows cfg w (us1 @ us2) = [] then [] else [run_rows cfg w (us1 @ us2)])"
      using main_output [OF users] by (simp add: same)
    have "userId r' \<noteq> js_get u ''id''"
      if "CsvWrite rows' \<in> set (fst (main cfg w))" "r' \<in> set rows'" for rows' r'
    proof
      assume "userId r' = js_get u ''id''"
      with even_rows [OF that] odd show False by simp
    qed
    with out show ?thesis
      by blast
  qed
  have "is_even_id w (userId r) \<and> (\<forall>m. userId r = JNum m \<longrightarrow> even m)"
    if "CsvWrite rows \<in> set (fst (main cfg w))" "r \<in> set rows"
    using even_rows [OF that] by auto
  with odd_part show ?thesis
    by blast
qed

theorem odd_users_produce_no_rows_witness:
  "snd (getUsers CONFIG world_demo)
     = Inr (Items ([[(''id'', JNum 2), (''name'', JStr ''Ann'')]]
            @ [(''id'', JNum 3), (''name'', JStr ''Bob'')]
            # [[(''id'', JNum 4), (''name'', JStr ''Cy'')],
               [(''id'', JNum 6), (''name'', JStr ''Dee'')]]))
   \<and> to_number world_demo (js_get [(''id'', JNum 3), (''name'', JStr ''Bob'')] ''id'') = Some 3
   \<and> odd (3::int)
   \<and> snd (getPostsByUserId CONFIG world_demo (JNum 3))
       = Inr [[(''id'', JNum 30), (''title'', JStr ''Odd'')]]
   \<and> snd (getCommentsByPostId CONFIG world_demo (JNum 30))
       = Inr [[(''id'', JNum 300), (''body'', JStr ''o''), (''email'', JStr ''o@o.o'')]]
   \<and> csv_writes (fst (main CONFIG world_demo)) = [demo_rows]
   \<and> CsvWrite demo_rows \<in> set (fst (main CONFIG world_demo))
   \<and> demo_rows ! 2 \<in> set demo_rows
   \<and> is_even_id world_demo (userId (demo_rows ! 2))
   \<and> userId (demo_rows ! 2) \<noteq> JNum 3"
proof -
  have users: "snd (getUsers CONFIG world_demo)
     = Inr (Items ([[(''id'', JNum 2), (''name'', JStr ''Ann'')]]
            @ [(''id'', JNum 3), (''name'', JStr ''Bob'')]
            # [[(''id'', JNum 4), (''name'', JStr ''Cy'')],
               [(''id'', JNum 6), (''name'', JStr ''Dee'')]]))"
    using demo_getUsers by (simp add: demo_users_def)
  have id: "to_number world_demo (js_get [(''id'', JNum 3), (''name'', JStr ''Bob'')] ''id'')
              = Some 3"
    by (simp add: js_get_def)
  have r: "demo_rows ! 2 \<in> set demo_rows"
    by (simp add: demo_rows_def)
  have posts: "snd (getPostsByUserId CONFIG world_demo (JNum 3))
       = Inr [[(''id'', JNum 30), (''title'', JStr ''Odd'')]]"
    by (simp add: demo_simps)
  have comments: "snd (getCommentsByPostId CONFIG world_demo (JNum 30))
       = Inr [[(''id'', JNum 300), (''body'', JStr ''o''), (''email'', JStr ''o@o.o'')]]"
    by (simp add: demo_simps)
  have out: "csv_writes (fst (main CONFIG world_demo)) = [demo_rows]"
    using main_output [OF demo_getUsers] by (simp add: demo_run_rows demo_rows_def)
  show ?thesis
    using odd_users_produce_no_rows
            [of CONFIG world_demo "[[(''id'', JNum 2), (''name'', JStr ''Ann'')]]"
               "[(''id'', JNum 3), (''name'', JStr ''Bob'')]"
               "[[(''id'', JNum 4), (''name'', JStr ''Cy'')],
                 [(''id'', JNum 6), (''name'', JStr ''Dee'')]]" 3 demo_rows "demo_rows ! 2"]
          users id r posts comments out demo_written
    by (simp add: js_get_def)
qed

section \<open>Posts that are skipped\<close>

lemma Promise_all_map_append:
  "fst (Promise_all_map task (xs @ x # ys))
     = fst (Promise_all_map task xs) @ fst (task x) @ fst (Promise_all_map task ys)
   \<and> snd (Promise_all_map task (xs @ x # ys))
     = snd (Promise_all_map task xs) @ snd (task x) # snd (Promise_all_map task ys)"
  by (simp add: Promise_all_map_results Promise_all_map_events)

lemma forEach_post_tasks_rows:
  "snd (forEach_post user (snd (Promise_all_map (post_task cfg w) posts)) acc)
     = acc @ concat (map (post_rows cfg w user) posts)"
  by (simp add: Promise_all_map_results forEach_post_tasks)

lemma post_rows_skipped:
  "snd (post_task cfg w post) = (post, []) \<Longrightarrow> post_rows cfg w user post = []"
  by (simp add: post_task_result post_rows_def split: if_splits)

lemma attempts_Logger [simp]:
  "attempts (Logger_info m) = []"
  "attempts (Logger_warn m) = []"
  "attempts (Logger_error m e) = []"
  by (simp_all add: Logger_info_def Logger_warn_def Logger_error_def split: option.splits)

lemma attempts_validate [simp]:
  "attempts (fst (validateUser x)) = []"
  "attempts (fst (validatePost x)) = []"
  "attempts (fst (validateComment x)) = []"
  by (simp_all add: validateUser_def validatePost_def validateComment_def Let_def)

lemma length_fetched_posts: "length (fetched_posts cfg w user) \<le> postsPerUser cfg"
  by (simp add: fetched_posts_def getPostsByUserId_result split: sum.splits)

lemma length_fetched_comments: "length (fetched_comments cfg w post) \<le> commentsPerPost cfg"
  by (simp add: fetched_comments_def getCommentsByPostId_result split: sum.splits)

lemma length_post_rows: "length (post_rows cfg w user post) \<le> commentsPerPost cfg"
proof -
  have "length (filter (\<lambda>comment. snd (validateComment comment)) (fetched_comments cfg w post))
          \<le> commentsPerPost cfg"
    by (rule le_trans [OF length_filter_le length_fetched_comments])
  then show ?thesis
    by (simp add: post_rows_def)
qed

lemma length_concat_bound:
  "(\<And>x. length (f x) \<le> c) \<Longrightarrow> length (concat (map f xs)) \<le> length xs * c"
proof (induction xs)
  case Nil
  show ?case by simp
next
  case (Cons x xs)
  from Cons.prems have "length (f x) \<le> c" .
  with Cons.IH [OF Cons.prems] show ?case by simp
qed

lemma length_user_rows:
  "length (user_rows cfg w user) \<le> postsPerUser cfg * commentsPerPost cfg"
proof (cases "snd (validateUser user)")
  case False
  then show ?thesis by (simp add: user_rows_def)
next
  case True
  have "length (concat (map (post_rows cfg w user) (fetched_posts cfg w user)))
          \<le> length (fetched_posts cfg w user) * commentsPerPost cfg"
    by (rule length_concat_bound) (rule length_post_rows)
  also have "\<dots> \<le> postsPerUser cfg * commentsPerPost cfg"
    by (rule mult_le_mono1) (rule length_fetched_posts)
  finally show ?thesis
    using True by (simp add: user_rows_def)
qed

text \<open>
  C10: for a post that fails \<open>validatePost\<close> the task does nothing but the validation:
  it issues no request (\<open>getCommentsByPostId\<close> is not called for it) and yields the
  post with no comments, so the post adds no record; the tasks, requests and records
  of its sibling posts are what they are without it. A user never adds more than
  \<open>postsPerUser * commentsPerPost\<close> records.
\<close>

theorem invalid_post_fetches_nothing:
  "(\<not> snd (validatePost post) \<longrightarrow>
      post_task cfg w post = (fst (validatePost post), (post, []))
    \<and> attempts (fst (post_task cfg w post)) = []
    \<and> fst (Promise_all_map (post_task cfg w) (ps1 @ post # ps2))
        = fst (Promise_all_map (post_task cfg w) ps1) @ fst (validatePost post)
            @ fst (Promise_all_map (post_task cfg w) ps2)
    \<and> snd (Promise_all_map (post_task cfg w) (ps1 @ post # ps2))
        = snd (Promise_all_map (post_task cfg w) ps1) @ (post, [])
            # snd (Promise_all_map (post_task cfg w) ps2)
    \<and> snd (forEach_post user (snd (Promise_all_map (post_task cfg w) (ps1 @ post # ps2))) acc)
        = snd (forEach_post user (snd (Promise_all_map (post_task cfg w) (ps1 @ ps2))) acc))
   \<and> length (snd (process_user cfg w user acc))
        \<le> length acc + postsPerUser cfg * commentsPerPost cfg"
proof -
  have bound: "length (snd (process_user cfg w user acc))
        \<le> length acc + postsPerUser cfg * commentsPerPost cfg"
    using length_user_rows [of cfg w user] by (simp add: process_user_rows)
  have skip: "post_task cfg w post = (fst (validatePost post), (post, []))"
    if "\<not> snd (validatePost post)"
    using that by (simp add: post_task_def case_prod_beta split: bool.splits)
  have tasks: "fst (Promise_all_map (post_task cfg w) (ps1 @ post # ps2))
        = fst (Promise_all_map (post_task cfg w) ps1) @ fst (validatePost post)
            @ fst (Promise_all_map (post_task cfg w) ps2)
    \<and> snd (Promise_all_map (post_task cfg w) (ps1 @ post # ps2))
        = snd (Promise_all_map (post_task cfg w) ps1) @ (post, [])
            # snd (Promise_all_map (post_task cfg w) ps2)"
    if "\<not> snd (validatePost post)"
    using Promise_all_map_append [of "post_task cfg w" ps1 post ps2] skip [OF that]
    by simp
  have records: "snd (forEach_post user
                        (snd (Promise_all_map (post_task cfg w) (ps1 @ post # ps2))) acc)
        = snd (forEach_post user (snd (Promise_all_map (post_task cfg w) (ps1 @ ps2))) acc)"
    if "\<not> snd (validatePost post)"
    using that by (simp add: forEach_post_tasks_rows post_rows_def)
  show ?thesis
    using skip tasks records bound by simp
qed

theorem invalid_post_fetches_nothing_witness:
  "\<not> snd (validatePost [(''id'', JNum 11), (''title'', JStr '''')])
   \<and> post_task CONFIG world_demo [(''id'', JNum 11), (''title'', JStr '''')]
       = ([Log ERROR ''Invalid post data - missing fields: title'',
           Log ERROR ''Details: undefined''],
          ([(''id'', JNum 11), (''title'', JStr '''')], []))
   \<and> attempts (fst (post_task CONFIG world_demo [(''id'', JNum 11), (''title'', JStr '''')]))
       = []
   \<and> snd (forEach_post [(''id'', JNum 2), (''name'', JStr ''Ann'')]
            (snd (Promise_all_map (post_task CONFIG world_demo)
                    ([[(''id'', JNum 12), (''title'', JStr ''Bye'')]]
                     @ [(''id'', JNum 11), (''title'', JStr '''')]
                     # [[(''id'', JNum 10), (''title'', JStr ''Hello'')]]))) [])
       = snd (forEach_post [(''id'', JNum 2), (''name'', JStr ''Ann'')]
            (snd (Promise_all_map (post_task CONFIG world_demo)
                    ([[(''id'', JNum 12), (''title'', JStr ''Bye'')]]
                     @ [[(''id'', JNum 10), (''title'', JStr ''Hello'')]]))) [])
   \<and> length (snd (process_user CONFIG world_demo [(''id'', JNum 2), (''name'', JStr ''Ann'')] []))
       \<le> 15"
proof -
  have invalid: "\<not> snd (validatePost [(''id'', JNum 11), (''title'', JStr '''')])"
    by (simp add: validate_results js_get_def)
  have log: "fst (validatePost [(''id'', JNum 11), (''title'', JStr '''')])
      = [Log ERROR ''Invalid post data - missing fields: title'',
         Log ERROR ''Details: undefined'']"
    by (simp add: validatePost_def js_get_def Logger_error_def)
  have bound: "postsPerUser CONFIG * commentsPerPost CONFIG = 15"
    by (simp add: CONFIG_def)
  note inst = invalid_post_fetches_nothing
            [of "[(''id'', JNum 11), (''title'', JStr '''')]" CONFIG world_demo
               "[[(''id'', JNum 12), (''title'', JStr ''Bye'')]]"
               "[[(''id'', JNum 10), (''title'', JStr ''Hello'')]]"
               "[(''id'', JNum 2), (''name'', JStr ''Ann'')]" "[]"]
  from inst invalid
  have task: "post_task CONFIG world_demo [(''id'', JNum 11), (''title'', JStr '''')]
      = (fst (validatePost [(''id'', JNum 11), (''title'', JStr '''')]),
         ([(''id'', JNum 11), (''title'', JStr '''')], []))"
    by blast
  from inst invalid
  have quiet: "attempts (fst (post_task CONFIG world_demo
                                [(''id'', JNum 11), (''title'', JStr '''')])) = []"
    by blast
  from inst invalid
  have siblings: "snd (forEach_post [(''id'', JNum 2), (''name'', JStr ''Ann'')]
            (snd (Promise_all_map (post_task CONFIG world_demo)
                    ([[(''id'', JNum 12), (''title'', JStr ''Bye'')]]
                     @ [(''id'', JNum 11), (''title'', JStr '''')]
                     # [[(''id'', JNum 10), (''title'', JStr ''Hello'')]]))) [])
       = snd (forEach_post [(''id'', JNum 2), (''name'', JStr ''Ann'')]
            (snd (Promise_all_map (post_task CONFIG world_demo)
                    ([[(''id'', JNum 12), (''title'', JStr ''Bye'')]]
                     @ [[(''id'', JNum 10), (''title'', JStr ''Hello'')]]))) [])"
    by blast
  from inst
  have "length (snd (process_user CONFIG world_demo
                       [(''id'', JNum 2), (''name'', JStr ''Ann'')] []))
          \<le> length ([] :: flat_record list) + postsPerUser CONFIG * commentsPerPost CONFIG"
    by blast
  then have few: "length (snd (process_user CONFIG world_demo
                       [(''id'', JNum 2), (''name'', JStr ''Ann'')] [])) \<le> 15"
    by (simp add: bound)
  show ?thesis
    using invalid task quiet siblings few unfolding log by blast
qed

section \<open>Comment fetches that fail\<close>

lemma post_task_failure:
  assumes "snd (getCommentsByPostId cfg w (js_get post ''id'')) = Inl e"
  shows "snd (post_task cfg w post) = (post, [])"
    and "snd (validatePost post) \<Longrightarrow>
         fst (post_task cfg w post)
           = fst (validatePost post) @ fst (getCommentsByPostId cfg w (js_get post ''id''))
               @ Logger_error (''Failed to fetch comments for post ''
                                 @ to_string (js_get post ''id'')) (Some (message e))"
  using assms
  by (simp_all add: post_task_def case_prod_beta split: bool.splits sum.splits)

lemma for_users_append_rows:
  "snd (for_users cfg w (us1 @ user # us2) acc)
     = acc @ concat (map (user_rows cfg w) us1) @ user_rows cfg w user
         @ concat (map (user_rows cfg w) us2)"
  by (simp add: for_users_rows)

text \<open>
  C7: when the comments of a post cannot be fetched, the task of that post logs the
  failure and yields the post with no comments, so the post adds no record. The
  tasks of the sibling posts run as they do without it, with their requests and
  their results, and the user's records are those of the sibling posts. The loop
  goes on: the records of the run are those of the users before, of this user and of
  the users after.
\<close>

theorem comment_fetch_failure_isolated:
  assumes "snd (getCommentsByPostId cfg w (js_get post ''id'')) = Inl e"
  shows "snd (post_task cfg w post) = (post, [])
    \<and> (snd (validatePost post) \<longrightarrow>
         set (Logger_error (''Failed to fetch comments for post ''
                              @ to_string (js_get post ''id'')) (Some (message e)))
           \<subseteq> set (fst (post_task cfg w post)))
    \<and> fst (Promise_all_map (post_task cfg w) (ps1 @ post # ps2))
        = fst (Promise_all_map (post_task cfg w) ps1) @ fst (post_task cfg w post)
            @ fst (Promise_all_map (post_task cfg w) ps2)
    \<and> snd (Promise_all_map (post_task cfg w) (ps1 @ post # ps2))
        = snd (Promise_all_map (post_task cfg w) ps1) @ (post, [])
            # snd (Promise_all_map (post_task cfg w) ps2)
    \<and> snd (forEach_post user (snd (Promise_all_map (post_task cfg w) (ps1 @ post # ps2))) acc)
        = snd (forEach_post user (snd (Promise_all_map (post_task cfg w) (ps1 @ ps2))) acc)
    \<and> (snd (validateUser user)
         \<and> snd (getPostsByUserId cfg w (js_get user ''id'')) = Inr (ps1 @ post # ps2) \<longrightarrow>
           snd (process_user cfg w user acc)
             = acc @ concat (map (post_rows cfg w user) ps1)
                 @ concat (map (post_rows cfg w user) ps2)
         \<and> snd (for_users cfg w (us1 @ user # us2) acc)
             = acc @ concat (map (user_rows cfg w) us1)
                 @ (concat (map (post_rows cfg w user) ps1)
                    @ concat (map (post_rows cfg w user) ps2))
                 @ concat (map (user_rows cfg w) us2))"
proof -
  note failure = post_task_failure [OF assms]
  have no_rows: "post_rows cfg w user post = []"
    using failure(1) by (rule post_rows_skipped)
  have tasks: "fst (Promise_all_map (post_task cfg w) (ps1 @ post # ps2))
        = fst (Promise_all_map (post_task cfg w) ps1) @ fst (post_task cfg w post)
            @ fst (Promise_all_map (post_task cfg w) ps2)
    \<and> snd (Promise_all_map (post_task cfg w) (ps1 @ post # ps2))
        = snd (Promise_all_map (post_task cfg w) ps1) @ (post, [])
            # snd (Promise_all_map (post_task cfg w) ps2)"
    using Promise_all_map_append [of "post_task cfg w" ps1 post ps2] failure(1) by simp
  have records: "snd (forEach_post user
                        (snd (Promise_all_map (post_task cfg w) (ps1 @ post # ps2))) acc)
        = snd (forEach_post user (snd (Promise_all_map (post_task cfg w) (ps1 @ ps2))) acc)"
    by (simp add: forEach_post_tasks_rows no_rows)
  have user: "user_rows cfg w user
      = concat (map (post_rows cfg w user) ps1) @ concat (map (post_rows cfg w user) ps2)"
    if "snd (validateUser user)"
      "snd (getPostsByUserId cfg w (js_get user ''id'')) = Inr (ps1 @ post # ps2)"
    using that by (simp add: user_rows_def fetched_posts_def no_rows)
  have logged: "set (Logger_error (''Failed to fetch comments for post ''
                              @ to_string (js_get post ''id'')) (Some (message e)))
           \<subseteq> set (fst (post_task cfg w post))"
    if "snd (validatePost post)"
    unfolding failure(2) [OF that] by auto
  show ?thesis
    using failure(1) logged tasks records user
    by (simp add: process_user_rows for_users_append_rows)
qed

theorem comment_fetch_failure_isolated_witness:
  "snd (getCommentsByPostId CONFIG world_demo
          (js_get [(''id'', JNum 12), (''title'', JStr ''Bye'')] ''id''))
     = Inl (JsError ''Request failed with status code 500'')
   \<and> snd (post_task CONFIG world_demo [(''id'', JNum 12), (''title'', JStr ''Bye'')])
       = ([(''id'', JNum 12), (''title'', JStr ''Bye'')], [])
   \<and> Log ERROR ''Failed to fetch comments for post 12''
       \<in> set (fst (post_task CONFIG world_demo [(''id'', JNum 12), (''title'', JStr ''Bye'')]))
   \<and> snd (process_user CONFIG world_demo [(''id'', JNum 2), (''name'', JStr ''Ann'')] [])
       = take 2 demo_rows
   \<and> snd (for_users CONFIG world_demo
            ([] @ [(''id'', JNum 2), (''name'', JStr ''Ann'')]
                # [[(''id'', JNum 4), (''name'', JStr ''Cy'')],
                   [(''id'', JNum 6), (''name'', JStr ''Dee'')]]) [])
       = demo_rows"
proof -
  have fail: "snd (getCommentsByPostId CONFIG world_demo
          (js_get [(''id'', JNum 12), (''title'', JStr ''Bye'')] ''id''))
     = Inl (JsError ''Request failed with status code 500'')"
    using demo_comments_12 by (simp add: js_get_def)
  have posts: "snd (getPostsByUserId CONFIG world_demo
                      (js_get [(''id'', JNum 2), (''name'', JStr ''Ann'')] ''id''))
     = Inr ([] @ [(''id'', JNum 12), (''title'', JStr ''Bye'')]
              # [[(''id'', JNum 11), (''title'', JStr '''')],
                 [(''id'', JNum 10), (''title'', JStr ''Hello'')]])"
    using demo_posts_2 by (simp add: js_get_def)
  have valid: "snd (validateUser [(''id'', JNum 2), (''name'', JStr ''Ann'')])"
    "snd (validatePost [(''id'', JNum 12), (''title'', JStr ''Bye'')])"
    by (simp_all add: validate_results js_get_def)
  have rows: "post_rows CONFIG world_demo [(''id'', JNum 2), (''name'', JStr ''Ann'')]
                [(''id'', JNum 11), (''title'', JStr '''')] = []"
    "post_rows CONFIG world_demo [(''id'', JNum 2), (''name'', JStr ''Ann'')]
                [(''id'', JNum 10), (''title'', JStr ''Hello'')] = take 2 demo_rows"
    "user_rows CONFIG world_demo [(''id'', JNum 4), (''name'', JStr ''Cy'')] = []"
    "user_rows CONFIG world_demo [(''id'', JNum 6), (''name'', JStr ''Dee'')] = drop 2 demo_rows"
    by (simp_all add: user_rows_def post_rows_def fetched_posts_def fetched_comments_def
        demo_fetches validate_results js_get_def flat_record_of_def demo_rows_def)
  show ?thesis
    using comment_fetch_failure_isolated
            [OF fail, of "[]" "[[(''id'', JNum 11), (''title'', JStr '''')],
                 [(''id'', JNum 10), (''title'', JStr ''Hello'')]]"
               "[(''id'', JNum 2), (''name'', JStr ''Ann'')]" "[]" "[]"
               "[[(''id'', JNum 4), (''name'', JStr ''Cy'')],
                 [(''id'', JNum 6), (''name'', JStr ''Dee'')]]"]
          fail posts valid
    by (simp add: rows Logger_error_def js_get_def show_int_def show_nat.simps demo_rows_def)
qed

section \<open>Failures and the exit status\<close>

lemma allRecords_rows: "allRecords cfg w users = run_rows cfg w users"
  by (simp add: allRecords_def for_users_even_rows)


lemma main_status:
  "snd (getUsers cfg w) = Inr (Items users) \<Longrightarrow>
   snd (main cfg w)
     = (if allRecords cfg w users = [] then 0
        else case csv_write w (allRecords cfg w users) of None \<Rightarrow> 0 | Some e \<Rightarrow> 1)"
  using process_no_rows [of cfg w users] process_rows [of cfg w users]
  by (simp add: main_exit allRecords_rows split: option.splits)

lemma process_user_failure:
  assumes "snd (validateUser user)"
    and "snd (getPostsByUserId cfg w (js_get user ''id'')) = Inl e"
  shows "process_user cfg w user acc
           = (fst (validateUser user) @ fst (getPostsByUserId cfg w (js_get user ''id''))
                @ Logger_error (''Failed to process user '' @ to_string (js_get user ''id''))
                    (Some (message e)),
              acc)"
  using assms
  by (simp add: process_user_def case_prod_beta split: bool.splits sum.splits)


lemma forEach_comment_events:
  "fst (forEach_comment user post comments acc)
     = concat (map (\<lambda>comment. fst (validateComment comment)) comments)"
  by (induction comments arbitrary: acc) (simp_all add: case_prod_beta)

lemma forEach_post_events:
  "fst (forEach_post user pcs acc)
     = concat (map (\<lambda>pc. concat (map (\<lambda>comment. fst (validateComment comment)) (snd pc))) pcs)"
proof (induction pcs arbitrary: acc)
  case Nil
  show ?case by simp
next
  case (Cons pc pcs)
  then show ?case
    by (cases pc) (simp add: case_prod_beta forEach_comment_events)
qed

lemma process_user_events:
  "fst (process_user cfg w user acc) = fst (process_user cfg w user [])"
  by (simp add: process_user_def case_prod_beta forEach_post_events
      split: bool.splits sum.splits)

lemma for_users_events:
  "fst (for_users cfg w users acc)
     = concat (map (\<lambda>user. fst (process_user cfg w user [])) users)"
proof (induction users arbitrary: acc)
  case Nil
  show ?case by simp
next
  case (Cons user users)
  show ?case
    using Cons.IH [of "snd (process_user cfg w user acc)"]
          process_user_events [of cfg w user acc]
    by (simp add: case_prod_beta)
qed

lemma process_loop_events:
  assumes "snd (getUsers cfg w) = Inr (Items users)"
  shows "set (fst (for_users cfg w
                     (filter (\<lambda>user. is_even_id w (js_get user ''id'')) users) []))
           \<subseteq> set (fst (process cfg w))"
  using assms
  by (auto simp: process_def case_prod_beta Let_def split: sum.splits)

lemma main_events: "set (fst (process cfg w)) \<subseteq> set (fst (main cfg w))"
  by (auto simp: main_def case_prod_beta split: sum.splits)

lemma surviving_user_events:
  assumes "snd (getUsers cfg w) = Inr (Items users)"
    and "user \<in> set users" and "is_even_id w (js_get user ''id'')"
  shows "set (fst (process_user cfg w user acc)) \<subseteq> set (fst (main cfg w))"
proof -
  have "set (fst (process_user cfg w user []))
          \<subseteq> set (fst (for_users cfg w
                          (filter (\<lambda>user. is_even_id w (js_get user ''id'')) users) []))"
    using assms(2,3) by (auto simp: for_users_events)
  also note process_loop_events [OF assms(1)]
  also note main_events
  finally show ?thesis
    by (simp add: process_user_events [of cfg w user acc])
qed

lemma run_rows_without:
  assumes "user_rows cfg w user = []"
  shows "run_rows cfg w (us1 @ user # us2) = run_rows cfg w (us1 @ us2)"
  using assms by (simp add: run_rows_def surviving_users_def)

text \<open>
  C3, amended: when the posts of a surviving user cannot be fetched, the loop body
  leaves \<open>allRecords\<close> as it was and logs the failure; the loop goes on with the
  users that follow, and the records accumulated and written are those of a run in
  which the user list lacks that user. The exit status is 0 unless these records are
  not empty and writing them fails.
\<close>

theorem post_fetch_failure_skips_user:
  assumes "snd (getUsers cfg w) = Inr (Items (us1 @ user # us2))"
    and "is_even_id w (js_get user ''id'')" and "snd (validateUser user)"
    and "snd (getPostsByUserId cfg w (js_get user ''id'')) = Inl e"
  shows "snd (process_user cfg w user acc) = acc
    \<and> set (Logger_error (''Failed to process user '' @ to_string (js_get user ''id''))
              (Some (message e)))
        \<subseteq> set (fst (main cfg w))
    \<and> allRecords cfg w (us1 @ user # us2) = allRecords cfg w (us1 @ us2)
    \<and> csv_writes (fst (main cfg w))
        = (if allRecords cfg w (us1 @ us2) = [] then [] else [allRecords cfg w (us1 @ us2)])
    \<and> (snd (main cfg w) = 0
         \<longleftrightarrow> allRecords cfg w (us1 @ us2) = []
             \<or> csv_write w (allRecords cfg w (us1 @ us2)) = None)
    \<and> (\<forall>later \<in> set us2. is_even_id w (js_get later ''id'') \<longrightarrow>
          set (fst (process_user cfg w later [])) \<subseteq> set (fst (main cfg w)))"
proof -
  note body = process_user_failure [OF assms(3,4)]
  have skipped: "snd (process_user cfg w user acc) = acc"
    by (simp add: body)
  have "set (fst (process_user cfg w user [])) \<subseteq> set (fst (main cfg w))"
    by (rule surviving_user_events [OF assms(1) _ assms(2)]) simp
  then have logged: "set (Logger_error (''Failed to process user ''
                                          @ to_string (js_get user ''id''))
                            (Some (message e)))
        \<subseteq> set (fst (main cfg w))"
    by (auto simp: body)
  have "user_rows cfg w user = []"
    using assms(3,4) by (simp add: user_rows_def fetched_posts_def)
  then have same: "allRecords cfg w (us1 @ user # us2) = allRecords cfg w (us1 @ us2)"
    by (simp add: allRecords_rows run_rows_without)
  have written: "csv_writes (fst (main cfg w))
        = (if allRecords cfg w (us1 @ us2) = [] then [] else [allRecords cfg w (us1 @ us2)])"
    using main_output [OF assms(1)] same by (simp add: allRecords_rows)
  have status: "snd (main cfg w) = 0
         \<longleftrightarrow> allRecords cfg w (us1 @ us2) = []
             \<or> csv_write w (allRecords cfg w (us1 @ us2)) = None"
    using main_status [OF assms(1)] same by (simp split: option.splits)
  have continues: "\<forall>later \<in> set us2. is_even_id w (js_get later ''id'') \<longrightarrow>
          set (fst (process_user cfg w later [])) \<subseteq> set (fst (main cfg w))"
    using surviving_user_events [OF assms(1)] by simp
  from skipped logged same written status continues show ?thesis
    by blast
qed






lemma sink_down_rows: "run_rows CONFIG world_sink_down demo_users = demo_rows"
  by (simp add: run_rows_def surviving_users_def user_rows_def post_rows_def demo_simps
      flat_record_of_def demo_rows_def)

lemma sink_down_posts_4:
  "snd (getPostsByUserId CONFIG world_sink_down (JNum 4))
     = Inl (JsError ''Request failed with status code 500'')"
  by (simp add: demo_simps)


lemma sink_down_status: "snd (main CONFIG world_sink_down) = 1"
  using main_status [OF demo_getUsers_sink_down]
  by (simp add: allRecords_rows sink_down_rows) (simp add: demo_rows_def world_sink_down_def)

lemma world_down_getUsers: "snd (getUsers CONFIG world_down) = Inl (JsError ''ECONNREFUSED'')"
  by (simp add: getUsers_request request_result_down world_down_def)

text \<open>
  C3 as stated fails: against the demo server the posts of the surviving user 4
  cannot be fetched, and with an output file that cannot be written the run ends
  with exit status 1.
\<close>

theorem post_fetch_failure_exit_counterexample:
  "snd (getUsers CONFIG world_sink_down) = Inr (Items demo_users)
   \<and> [(''id'', JNum 4), (''name'', JStr ''Cy'')] \<in> set (surviving_users world_sink_down demo_users)
   \<and> snd (getPostsByUserId CONFIG world_sink_down
            (js_get [(''id'', JNum 4), (''name'', JStr ''Cy'')] ''id''))
       = Inl (JsError ''Request failed with status code 500'')
   \<and> snd (main CONFIG world_sink_down) = 1"
  using demo_getUsers_sink_down sink_down_posts_4 sink_down_status
  by (simp add: surviving_users_def demo_users_def validate_results js_get_def)

theorem post_fetch_failure_skips_user_witness:
  "snd (process_user CONFIG world_demo [(''id'', JNum 4), (''name'', JStr ''Cy'')] []) = []
   \<and> Log ERROR ''Failed to process user 4'' \<in> set (fst (main CONFIG world_demo))
   \<and> allRecords CONFIG world_demo
        ([[(''id'', JNum 2), (''name'', JStr ''Ann'')], [(''id'', JNum 3), (''name'', JStr ''Bob'')]]
         @ [[(''id'', JNum 6), (''name'', JStr ''Dee'')]]) = demo_rows
   \<and> csv_writes (fst (main CONFIG world_demo)) = [demo_rows]
   \<and> snd (main CONFIG world_demo) = 0"
proof -
  have users: "snd (getUsers CONFIG world_demo)
      = Inr (Items ([[(''id'', JNum 2), (''name'', JStr ''Ann'')],
                     [(''id'', JNum 3), (''name'', JStr ''Bob'')]]
                    @ [(''id'', JNum 4), (''name'', JStr ''Cy'')]
                    # [[(''id'', JNum 6), (''name'', JStr ''Dee'')]]))"
    using demo_getUsers by (simp add: demo_users_def)
  have even: "is_even_id world_demo (js_get [(''id'', JNum 4), (''name'', JStr ''Cy'')] ''id'')"
    by (simp add: js_get_def)
  have valid: "snd (validateUser [(''id'', JNum 4), (''name'', JStr ''Cy'')])"
    by (simp add: validate_results js_get_def)
  have fail: "snd (getPostsByUserId CONFIG world_demo
                     (js_get [(''id'', JNum 4), (''name'', JStr ''Cy'')] ''id''))
                = Inl (JsError ''Request failed with status code 500'')"
    using demo_posts_4 by (simp add: js_get_def)
  have all: "allRecords CONFIG world_demo
        ([[(''id'', JNum 2), (''name'', JStr ''Ann'')], [(''id'', JNum 3), (''name'', JStr ''Bob'')]]
         @ [(''id'', JNum 4), (''name'', JStr ''Cy'')]
         # [[(''id'', JNum 6), (''name'', JStr ''Dee'')]]) = demo_rows"
    using demo_run_rows by (simp add: allRecords_rows demo_users_def)
  have sink: "csv_write world_demo demo_rows = None"
    by (simp add: world_demo_def)
  have msg: "''Failed to process user ''
               @ to_string (js_get [(''id'', JNum 4), (''name'', JStr ''Cy'')] ''id'')
             = ''Failed to process user 4''"
    by (simp add: js_get_def show_int_def show_nat.simps)
  note inst = post_fetch_failure_skips_user [OF users even valid fail, of "[]"]
  from inst [THEN conjunct1] have skipped:
    "snd (process_user CONFIG world_demo [(''id'', JNum 4), (''name'', JStr ''Cy'')] []) = []" .
  from inst [THEN conjunct2, THEN conjunct1] have "set (Logger_error (''Failed to process user ''
               @ to_string (js_get [(''id'', JNum 4), (''name'', JStr ''Cy'')] ''id''))
              (Some (message (JsError ''Request failed with status code 500''))))
        \<subseteq> set (fst (main CONFIG world_demo))" .
  then have logged: "Log ERROR ''Failed to process user 4'' \<in> set (fst (main CONFIG world_demo))"
    unfolding msg by (simp add: Logger_error_def)
  from inst [THEN conjunct2, THEN conjunct2, THEN conjunct1] all have same: "allRecords CONFIG world_demo
        ([[(''id'', JNum 2), (''name'', JStr ''Ann'')], [(''id'', JNum 3), (''name'', JStr ''Bob'')]]
         @ [[(''id'', JNum 6), (''name'', JStr ''Dee'')]]) = demo_rows"
    by simp
  have ne: "demo_rows \<noteq> []"
    by (simp add: demo_rows_def)
  from inst [THEN conjunct2, THEN conjunct2, THEN conjunct2, THEN conjunct1]
  have "csv_writes (fst (main CONFIG world_demo))
        = (if allRecords CONFIG world_demo
        ([[(''id'', JNum 2), (''name'', JStr ''Ann'')], [(''id'', JNum 3), (''name'', JStr ''Bob'')]]
         @ [[(''id'', JNum 6), (''name'', JStr ''Dee'')]]) = [] then []
           else [allRecords CONFIG world_demo
        ([[(''id'', JNum 2), (''name'', JStr ''Ann'')], [(''id'', JNum 3), (''name'', JStr ''Bob'')]]
         @ [[(''id'', JNum 6), (''name'', JStr ''Dee'')]])])" .
  then have written: "csv_writes (fst (main CONFIG world_demo)) = [demo_rows]"
    unfolding same using ne by simp
  from inst [THEN conjunct2, THEN conjunct2, THEN conjunct2, THEN conjunct2, THEN conjunct1]
  have "snd (main CONFIG world_demo) = 0
         \<longleftrightarrow> allRecords CONFIG world_demo
        ([[(''id'', JNum 2), (''name'', JStr ''Ann'')], [(''id'', JNum 3), (''name'', JStr ''Bob'')]]
         @ [[(''id'', JNum 6), (''name'', JStr ''Dee'')]]) = []
             \<or> csv_write world_demo (allRecords CONFIG world_demo
        ([[(''id'', JNum 2), (''name'', JStr ''Ann'')], [(''id'', JNum 3), (''name'', JStr ''Bob'')]]
         @ [[(''id'', JNum 6), (''name'', JStr ''Dee'')]])) = None" .
  then have status: "snd (main CONFIG world_demo) = 0"
    unfolding same using sink by simp
  from skipped logged same written status show ?thesis
    by blast
qed



section \<open>Sorting and truncating the fetched lists\<close>

lemma sort_descending_sorted:
  "sorted_wrt (\<lambda>x y. key y \<le> key x) (sort_descending key xs)"
proof -
  have "sorted (map (\<lambda>x. - key x) (sort_descending key xs))"
    by (simp add: sort_descending_def)
  then show ?thesis
    by (simp add: sorted_map)
qed

lemma sort_descending_mset: "mset (sort_descending key xs) = mset xs"
  by (simp add: sort_descending_def)

lemma sort_descending_stable:
  "filter (\<lambda>x. key x = k) (sort_descending key xs) = filter (\<lambda>x. key x = k) xs"
  using sort_key_stable [of "\<lambda>x. - key x" "- k" xs]
  by (simp add: sort_descending_def)

lemma sort_insert_insort_key:
  fixes key :: "'a \<Rightarrow> int"
  shows "\<forall>y \<in> set ys. is_positive (comparefn x y) \<longleftrightarrow> key x < key y \<Longrightarrow>
   sort_insert comparefn x ys = insort_key (\<lambda>x. - key x) x ys"
  by (induction ys) auto

lemma Array_sort_sort_descending:
  "sorted_wrt (\<lambda>x y. is_positive (comparefn x y) \<longleftrightarrow> key x < key y) xs \<Longrightarrow>
   Array_sort comparefn xs = sort_descending key xs"
proof (induction xs)
  case Nil
  show ?case by (simp add: Array_sort_def sort_descending_def)
next
  case (Cons x xs)
  then have tail: "Array_sort comparefn xs = sort_key (\<lambda>x. - key x) xs"
    by (simp add: sort_descending_def)
  have "\<forall>y \<in> set (sort_key (\<lambda>x. - key x) xs). is_positive (comparefn x y) \<longleftrightarrow> key x < key y"
    using Cons.prems by simp
  then have "sort_insert comparefn x (sort_key (\<lambda>x. - key x) xs)
               = insort_key (\<lambda>x. - key x) x (sort_key (\<lambda>x. - key x) xs)"
    by (rule sort_insert_insort_key)
  with tail show ?case
    by (simp add: Array_sort_def sort_descending_def)
qed

lemma sorted_wrt_all_pairs: "(\<And>x y. x \<in> set xs \<Longrightarrow> y \<in> set xs \<Longrightarrow> P x y) \<Longrightarrow> sorted_wrt P xs"
  by (induction xs) auto

lemma compare_items_dated:
  assumes "carries_date w a" and "carries_date w b"
  shows "is_positive (compare_items w a b) \<longleftrightarrow> date_key w a < date_key w b"
  using assms
  by (auto simp: carries_date_def compare_items_def js_and_def date_key_def)

lemma compare_items_by_id:
  assumes "\<not> (truthy (js_get a ''date'') \<and> truthy (js_get b ''date''))"
    and "has_numeric_id w a" and "has_numeric_id w b"
  shows "is_positive (compare_items w a b) \<longleftrightarrow> id_key w a < id_key w b"
  using assms
  by (auto simp: has_numeric_id_def compare_items_def js_and_def id_key_def)

lemma sort_all_dated:
  assumes "\<forall>x \<in> set items. carries_date w x"
  shows "Array_sort (compare_items w) items = sort_descending (date_key w) items"
proof (rule Array_sort_sort_descending, rule sorted_wrt_all_pairs)
  fix x y
  assume "x \<in> set items" "y \<in> set items"
  with assms show "is_positive (compare_items w x y) \<longleftrightarrow> date_key w x < date_key w y"
    by (simp add: compare_items_dated)
qed

lemma one_dated_pairs:
  "length (filter P xs) \<le> 1 \<Longrightarrow> sorted_wrt (\<lambda>x y. \<not> (P x \<and> P y)) xs"
proof (induction xs)
  case Nil
  show ?case by simp
next
  case (Cons x xs)
  show ?case
  proof (cases "P x")
    case True
    with Cons.prems have "filter P xs = []" by simp
    then have "\<forall>y \<in> set xs. \<not> P y"
      by (simp add: filter_empty_conv)
    with Cons True show ?thesis by simp
  next
    case False
    with Cons show ?thesis by simp
  qed
qed

lemma sort_one_dated:
  assumes "length (filter (\<lambda>x. truthy (js_get x ''date'')) items) \<le> 1"
    and "\<forall>x \<in> set items. has_numeric_id w x"
  shows "Array_sort (compare_items w) items = sort_descending (id_key w) items"
proof (rule Array_sort_sort_descending)
  have "sorted_wrt (\<lambda>x y. \<not> (truthy (js_get x ''date'') \<and> truthy (js_get y ''date''))
                           \<and> x \<in> set items \<and> y \<in> set items) items"
    using one_dated_pairs [OF assms(1)]
    by (simp add: sorted_wrt_iff_nth_less)
  then show "sorted_wrt (\<lambda>x y. is_positive (compare_items w x y)
                                  \<longleftrightarrow> id_key w x < id_key w y) items"
  proof (rule sorted_wrt_mono_rel [rotated])
    fix x y
    assume "x \<in> set items" "y \<in> set items"
      and "\<not> (truthy (js_get x ''date'') \<and> truthy (js_get y ''date''))
           \<and> x \<in> set items \<and> y \<in> set items"
    with assms(2) show "is_positive (compare_items w x y) \<longleftrightarrow> id_key w x < id_key w y"
      by (simp add: compare_items_by_id)
  qed
qed

text \<open>
  C4, amended: \<open>getPostsByUserId\<close> returns the first \<open>postsPerUser\<close> items of the
  fetched list sorted in descending order of the date, ties in fetch order, when
  every item carries a date; and sorted in descending order of the id, ties in fetch
  order, when at most one item has a truthy date and the ids are numbers.
  \<open>getCommentsByPostId\<close> does the same with \<open>commentsPerPost\<close>. Nothing is said of a
  list in which two items carry a date and another does not: there the comparison
  is by date between dated items and by id otherwise.
\<close>

theorem sorted_and_truncated:
  "(snd (request cfg w (baseUrl cfg @ ''/posts?userId='' @ to_string uid) 0) = Inr posts \<longrightarrow>
      ((\<forall>x \<in> set posts. carries_date w x) \<longrightarrow>
         snd (getPostsByUserId cfg w uid)
           = Inr (take (postsPerUser cfg) (sort_descending (date_key w) posts)))
    \<and> (length (filter (\<lambda>x. truthy (js_get x ''date'')) posts) \<le> 1
         \<and> (\<forall>x \<in> set posts. has_numeric_id w x) \<longrightarrow>
         snd (getPostsByUserId cfg w uid)
           = Inr (take (postsPerUser cfg) (sort_descending (id_key w) posts))))
   \<and> (snd (request cfg w (baseUrl cfg @ ''/comments?postId='' @ to_string pid) 0)
        = Inr comments \<longrightarrow>
      ((\<forall>x \<in> set comments. carries_date w x) \<longrightarrow>
         snd (getCommentsByPostId cfg w pid)
           = Inr (take (commentsPerPost cfg) (sort_descending (date_key w) comments)))
    \<and> (length (filter (\<lambda>x. truthy (js_get x ''date'')) comments) \<le> 1
         \<and> (\<forall>x \<in> set comments. has_numeric_id w x) \<longrightarrow>
         snd (getCommentsByPostId cfg w pid)
           = Inr (take (commentsPerPost cfg) (sort_descending (id_key w) comments))))"
  by (simp add: getPostsByUserId_result getCommentsByPostId_result sort_all_dated
      sort_one_dated)

lemma mixed_posts_comparisons:
  "compare_items world_demo [(''id'', JNum 22), (''title'', JStr ''C'')]
     [(''id'', JNum 20), (''title'', JStr ''A''), (''date'', JNum 3000)] = Some (- 2)"
  "compare_items world_demo [(''id'', JNum 20), (''title'', JStr ''A''), (''date'', JNum 3000)]
     [(''id'', JNum 21), (''title'', JStr ''B''), (''date'', JNum 1000)] = Some (- 2000)"
  "compare_items world_demo [(''id'', JNum 22), (''title'', JStr ''C'')]
     [(''id'', JNum 21), (''title'', JStr ''B''), (''date'', JNum 1000)] = Some (- 1)"
  "compare_items world_demo [(''id'', JNum 20), (''title'', JStr ''A''), (''date'', JNum 3000)]
     [(''id'', JNum 22), (''title'', JStr ''C'')] = Some 2"
  "compare_items world_demo [(''id'', JNum 21), (''title'', JStr ''B''), (''date'', JNum 1000)]
     [(''id'', JNum 20), (''title'', JStr ''A''), (''date'', JNum 3000)] = Some 2000"
  "compare_items world_demo [(''id'', JNum 21), (''title'', JStr ''B''), (''date'', JNum 1000)]
     [(''id'', JNum 22), (''title'', JStr ''C'')] = Some 1"
  by (simp_all add: compare_items_def js_and_def js_get_def)

text \<open>
  C4 as stated fails on a list in which some items carry a date and others do not:
  of the posts 22 (no date), 21 (date 1000) and 20 (date 3000) the script returns
  22, 20, 21, while the descending order of the ids is 22, 21, 20. On these three
  items the comparison function is a consistent order (22 before 20 before 21, see
  \<open>mixed_posts_comparisons\<close>), so every conforming sort returns the same list.
\<close>

theorem sort_mixed_dates_counterexample:
  "snd (request CONFIG world_demo (baseUrl CONFIG @ ''/posts?userId='' @ to_string (JNum 8)) 0)
     = Inr [[(''id'', JNum 22), (''title'', JStr ''C'')],
            [(''id'', JNum 21), (''title'', JStr ''B''), (''date'', JNum 1000)],
            [(''id'', JNum 20), (''title'', JStr ''A''), (''date'', JNum 3000)]]
   \<and> snd (getPostsByUserId CONFIG world_demo (JNum 8))
       = Inr [[(''id'', JNum 22), (''title'', JStr ''C'')],
              [(''id'', JNum 20), (''title'', JStr ''A''), (''date'', JNum 3000)],
              [(''id'', JNum 21), (''title'', JStr ''B''), (''date'', JNum 1000)]]
   \<and> take (postsPerUser CONFIG)
        (sort_descending (id_key world_demo)
           [[(''id'', JNum 22), (''title'', JStr ''C'')],
            [(''id'', JNum 21), (''title'', JStr ''B''), (''date'', JNum 1000)],
            [(''id'', JNum 20), (''title'', JStr ''A''), (''date'', JNum 3000)]])
       = [[(''id'', JNum 22), (''title'', JStr ''C'')],
          [(''id'', JNum 21), (''title'', JStr ''B''), (''date'', JNum 1000)],
          [(''id'', JNum 20), (''title'', JStr ''A''), (''date'', JNum 3000)]]
   \<and> snd (getPostsByUserId CONFIG world_demo (JNum 8))
       \<noteq> Inr (take (postsPerUser CONFIG)
                (sort_descending (id_key world_demo)
                   [[(''id'', JNum 22), (''title'', JStr ''C'')],
                    [(''id'', JNum 21), (''title'', JStr ''B''), (''date'', JNum 1000)],
                    [(''id'', JNum 20), (''title'', JStr ''A''), (''date'', JNum 3000)]]))"
proof -
  have fetched: "snd (request CONFIG world_demo
                        (baseUrl CONFIG @ ''/posts?userId='' @ to_string (JNum 8)) 0)
     = Inr [[(''id'', JNum 22), (''title'', JStr ''C'')],
            [(''id'', JNum 21), (''title'', JStr ''B''), (''date'', JNum 1000)],
            [(''id'', JNum 20), (''title'', JStr ''A''), (''date'', JNum 3000)]]"
    by (simp add: CONFIG_def world_demo_def demo_server_def request_result_ok show_int_def
        show_nat.simps)
  have returned: "snd (getPostsByUserId CONFIG world_demo (JNum 8))
       = Inr [[(''id'', JNum 22), (''title'', JStr ''C'')],
              [(''id'', JNum 20), (''title'', JStr ''A''), (''date'', JNum 3000)],
              [(''id'', JNum 21), (''title'', JStr ''B''), (''date'', JNum 1000)]]"
    by (simp add: demo_simps)
  have by_id: "take (postsPerUser CONFIG)
        (sort_descending (id_key world_demo)
           [[(''id'', JNum 22), (''title'', JStr ''C'')],
            [(''id'', JNum 21), (''title'', JStr ''B''), (''date'', JNum 1000)],
            [(''id'', JNum 20), (''title'', JStr ''A''), (''date'', JNum 3000)]])
       = [[(''id'', JNum 22), (''title'', JStr ''C'')],
          [(''id'', JNum 21), (''title'', JStr ''B''), (''date'', JNum 1000)],
          [(''id'', JNum 20), (''title'', JStr ''A''), (''date'', JNum 3000)]]"
    by (simp add: sort_descending_def id_key_def js_get_def CONFIG_def)
  show ?thesis
    unfolding by_id returned using fetched by simp
qed

lemma dated_items_carry_dates: "\<forall>x \<in> set dated_items. carries_date world_dated x"
  by (simp add: dated_items_def carries_date_def world_dated_def js_get_def)

lemma dated_items_sorted:
  "sort_descending (date_key world_dated) dated_items
     = [[(''id'', JNum 2), (''date'', JStr ''2024-01-03'')],
        [(''id'', JNum 4), (''date'', JStr ''2024-01-03'')],
        [(''id'', JNum 1), (''date'', JStr ''2024-01-02'')],
        [(''id'', JNum 3), (''date'', JStr ''2024-01-01'')]]"
  by (simp add: sort_descending_def dated_items_def date_key_def world_dated_def js_get_def)

theorem sorted_and_truncated_witness:
  "snd (getPostsByUserId CONFIG world_dated (JNum 2))
     = Inr [[(''id'', JNum 2), (''date'', JStr ''2024-01-03'')],
            [(''id'', JNum 4), (''date'', JStr ''2024-01-03'')],
            [(''id'', JNum 1), (''date'', JStr ''2024-01-02'')],
            [(''id'', JNum 3), (''date'', JStr ''2024-01-01'')]]
   \<and> snd (getCommentsByPostId CONFIG world_dated (JNum 1))
       = Inr [[(''id'', JNum 2), (''date'', JStr ''2024-01-03'')],
              [(''id'', JNum 4), (''date'', JStr ''2024-01-03'')],
              [(''id'', JNum 1), (''date'', JStr ''2024-01-02'')]]
   \<and> snd (getPostsByUserId CONFIG world_demo (JNum 2))
       = Inr [[(''id'', JNum 12), (''title'', JStr ''Bye'')],
              [(''id'', JNum 11), (''title'', JStr '''')],
              [(''id'', JNum 10), (''title'', JStr ''Hello'')]]
   \<and> snd (getCommentsByPostId CONFIG world_demo (JNum 10))
       = Inr [[(''id'', JNum 102), (''body'', JStr ''z''), (''email'', JStr ''d@e.f'')],
              [(''id'', JNum 101), (''body'', JStr ''y'')],
              [(''id'', JNum 100), (''body'', JStr ''x''), (''email'', JStr ''a@b.c'')]]"
proof -
  have fetched: "snd (request CONFIG world_dated url 0) = Inr dated_items" for url
    by (simp add: world_dated_def request_result_ok)
  note dated = sorted_and_truncated [of CONFIG world_dated "JNum 2" dated_items "JNum 1"
                 dated_items]
  from dated fetched dated_items_carry_dates
  have "snd (getPostsByUserId CONFIG world_dated (JNum 2))
          = Inr (take (postsPerUser CONFIG) (sort_descending (date_key world_dated) dated_items))
      \<and> snd (getCommentsByPostId CONFIG world_dated (JNum 1))
          = Inr (take (commentsPerPost CONFIG)
                   (sort_descending (date_key world_dated) dated_items))"
    by blast
  then have by_date: "snd (getPostsByUserId CONFIG world_dated (JNum 2))
     = Inr [[(''id'', JNum 2), (''date'', JStr ''2024-01-03'')],
            [(''id'', JNum 4), (''date'', JStr ''2024-01-03'')],
            [(''id'', JNum 1), (''date'', JStr ''2024-01-02'')],
            [(''id'', JNum 3), (''date'', JStr ''2024-01-01'')]]
   \<and> snd (getCommentsByPostId CONFIG world_dated (JNum 1))
       = Inr [[(''id'', JNum 2), (''date'', JStr ''2024-01-03'')],
              [(''id'', JNum 4), (''date'', JStr ''2024-01-03'')],
              [(''id'', JNum 1), (''date'', JStr ''2024-01-02'')]]"
    by (simp add: dated_items_sorted CONFIG_def)
  have posts: "snd (request CONFIG world_demo
                      (baseUrl CONFIG @ ''/posts?userId='' @ to_string (JNum 2)) 0)
      = Inr [[(''id'', JNum 10), (''title'', JStr ''Hello'')],
             [(''id'', JNum 11), (''title'', JStr '''')],
             [(''id'', JNum 12), (''title'', JStr ''Bye'')]]"
    by (simp add: CONFIG_def world_demo_def demo_server_def request_result_ok show_int_def
        show_nat.simps)
  have comments: "snd (request CONFIG world_demo
                      (baseUrl CONFIG @ ''/comments?postId='' @ to_string (JNum 10)) 0)
      = Inr [[(''id'', JNum 100), (''body'', JStr ''x''), (''email'', JStr ''a@b.c'')],
             [(''id'', JNum 101), (''body'', JStr ''y'')],
             [(''id'', JNum 102), (''body'', JStr ''z''), (''email'', JStr ''d@e.f'')]]"
    by (simp add: CONFIG_def world_demo_def demo_server_def request_result_ok show_int_def
        show_nat.simps)
  have undated:
    "length (filter (\<lambda>x. truthy (js_get x ''date''))
       [[(''id'', JNum 10), (''title'', JStr ''Hello'')],
        [(''id'', JNum 11), (''title'', JStr '''')],
        [(''id'', JNum 12), (''title'', JStr ''Bye'')]]) \<le> 1
     \<and> (\<forall>x \<in> set [[(''id'', JNum 10), (''title'', JStr ''Hello'')],
                    [(''id'', JNum 11), (''title'', JStr '''')],
                    [(''id'', JNum 12), (''title'', JStr ''Bye'')]]. has_numeric_id world_demo x)"
    "length (filter (\<lambda>x. truthy (js_get x ''date''))
       [[(''id'', JNum 100), (''body'', JStr ''x''), (''email'', JStr ''a@b.c'')],
        [(''id'', JNum 101), (''body'', JStr ''y'')],
        [(''id'', JNum 102), (''body'', JStr ''z''), (''email'', JStr ''d@e.f'')]]) \<le> 1
     \<and> (\<forall>x \<in> set [[(''id'', JNum 100), (''body'', JStr ''x''), (''email'', JStr ''a@b.c'')],
                    [(''id'', JNum 101), (''body'', JStr ''y'')],
                    [(''id'', JNum 102), (''body'', JStr ''z''), (''email'', JStr ''d@e.f'')]].
            has_numeric_id world_demo x)"
    by (simp_all add: js_get_def has_numeric_id_def)
  note plain = sorted_and_truncated [of CONFIG world_demo "JNum 2"
       "[[(''id'', JNum 10), (''title'', JStr ''Hello'')],
         [(''id'', JNum 11), (''title'', JStr '''')],
         [(''id'', JNum 12), (''title'', JStr ''Bye'')]]" "JNum 10"
       "[[(''id'', JNum 100), (''body'', JStr ''x''), (''email'', JStr ''a@b.c'')],
         [(''id'', JNum 101), (''body'', JStr ''y'')],
         [(''id'', JNum 102), (''body'', JStr ''z''), (''email'', JStr ''d@e.f'')]]"]
  from plain posts comments undated
  have "snd (getPostsByUserId CONFIG world_demo (JNum 2))
          = Inr (take (postsPerUser CONFIG) (sort_descending (id_key world_demo)
              [[(''id'', JNum 10), (''title'', JStr ''Hello'')],
               [(''id'', JNum 11), (''title'', JStr '''')],
               [(''id'', JNum 12), (''title'', JStr ''Bye'')]]))
      \<and> snd (getCommentsByPostId CONFIG world_demo (JNum 10))
          = Inr (take (commentsPerPost CONFIG) (sort_descending (id_key world_demo)
              [[(''id'', JNum 100), (''body'', JStr ''x''), (''email'', JStr ''a@b.c'')],
               [(''id'', JNum 101), (''body'', JStr ''y'')],
               [(''id'', JNum 102), (''body'', JStr ''z''), (''email'', JStr ''d@e.f'')]]))"
    by blast
  then have by_id: "snd (getPostsByUserId CONFIG world_demo (JNum 2))
       = Inr [[(''id'', JNum 12), (''title'', JStr ''Bye'')],
              [(''id'', JNum 11), (''title'', JStr '''')],
              [(''id'', JNum 10), (''title'', JStr ''Hello'')]]
   \<and> snd (getCommentsByPostId CONFIG world_demo (JNum 10))
       = Inr [[(''id'', JNum 102), (''body'', JStr ''z''), (''email'', JStr ''d@e.f'')],
              [(''id'', JNum 101), (''body'', JStr ''y'')],
              [(''id'', JNum 100), (''body'', JStr ''x''), (''email'', JStr ''a@b.c'')]]"
    by (simp add: sort_descending_def id_key_def js_get_def CONFIG_def)
  from by_date by_id show ?thesis
    by blast
qed

end
